theory Spec2Isabelle
  imports Main
begin

section \<open>Python values used by the sources\<close>

text \<open>
  A Python \<open>str\<close> is a sequence of code points. The model uses \<open>string\<close> and reads
  each \<open>char\<close> as one code point below 256; the character tests below agree with
  Python's on that range. Python's unbounded \<open>int\<close> is \<open>int\<close>, \<open>None\<close> is
  \<open>None\<close> of an option type, and a raised exception is the left summand of a result.
\<close>

datatype pyexn = IndexError | ValueError

definition getitem :: "'a list \<Rightarrow> int \<Rightarrow> pyexn + 'a" where
  \<comment> \<open>\<open>xs[i]\<close>: an index from \<open>-len(xs)\<close> to \<open>-1\<close> counts from the end; any index
      outside \<open>-len(xs) .. len(xs) - 1\<close> raises.\<close>
  "getitem xs i =
     (if 0 \<le> i \<and> i < int (length xs) then Inr (xs ! nat i)
      else if - int (length xs) \<le> i \<and> i < 0 then Inr (xs ! nat (int (length xs) + i))
      else Inl IndexError)"

definition quote :: string where
  "quote = [CHR 0x27]"

function str_nat :: "nat \<Rightarrow> string" where
  "str_nat n =
     (if n < 10 then [''0123456789'' ! n]
      else str_nat (n div 10) @ [''0123456789'' ! (n mod 10)])"
  by pat_completeness auto
termination
  by (relation "measure id") auto

definition str_int :: "int \<Rightarrow> string" where
  \<comment> \<open>\<open>"{}".format(i)\<close> for an int.\<close>
  "str_int i = (if i < 0 then CHR ''-'' # str_nat (nat (- i)) else str_nat (nat i))"

definition format_str_opt :: "string option \<Rightarrow> string" where
  "format_str_opt v = (case v of None \<Rightarrow> ''None'' | Some s \<Rightarrow> s)"

definition format_int_opt :: "int option \<Rightarrow> string" where
  "format_int_opt v = (case v of None \<Rightarrow> ''None'' | Some i \<Rightarrow> str_int i)"

definition truthy_str :: "string option \<Rightarrow> bool" where
  \<comment> \<open>\<open>if v:\<close> for \<open>None\<close> or a str: the empty string is false.\<close>
  "truthy_str v = (case v of None \<Rightarrow> False | Some s \<Rightarrow> s \<noteq> [])"

definition truthy_int :: "int option \<Rightarrow> bool" where
  \<comment> \<open>\<open>if v:\<close> for \<open>None\<close> or an int: zero is false.\<close>
  "truthy_int v = (case v of None \<Rightarrow> False | Some i \<Rightarrow> i \<noteq> 0)"

definition isspace :: "char \<Rightarrow> bool" where
  \<comment> \<open>\<open>str.isspace\<close> on one character, code points below 256.\<close>
  "isspace c =
     (let n = (of_char c :: nat)
      in (9 \<le> n \<and> n \<le> 13) \<or> (28 \<le> n \<and> n \<le> 32) \<or> n = 133 \<or> n = 160)"

definition isdigit_char :: "char \<Rightarrow> bool" where
  \<comment> \<open>The characters \<open>str.isdigit\<close> accepts below 256: 0-9 and the superscripts
      U+00B2, U+00B3, U+00B9.\<close>
  "isdigit_char c =
     (let n = (of_char c :: nat)
      in (48 \<le> n \<and> n \<le> 57) \<or> n = 178 \<or> n = 179 \<or> n = 185)"

definition isdigit :: "string \<Rightarrow> bool" where
  "isdigit s = (s \<noteq> [] \<and> list_all isdigit_char s)"

definition decimal_digit :: "char \<Rightarrow> bool" where
  \<comment> \<open>The decimal digits 0-9, as the specification words the number test.\<close>
  "decimal_digit c = (let n = (of_char c :: nat) in 48 \<le> n \<and> n \<le> 57)"

definition ident_start :: "char \<Rightarrow> bool" where
  \<comment> \<open>The class \<open>[_a-zA-Z]\<close>.\<close>
  "ident_start c =
     (let n = (of_char c :: nat)
      in n = 95 \<or> (97 \<le> n \<and> n \<le> 122) \<or> (65 \<le> n \<and> n \<le> 90))"

definition ident_char :: "char \<Rightarrow> bool" where
  \<comment> \<open>The class \<open>[_a-zA-Z0-9]\<close>.\<close>
  "ident_char c = (ident_start c \<or> decimal_digit c)"

definition identifier_shaped :: "string \<Rightarrow> bool" where
  \<comment> \<open>A letter or underscore, then letters, digits and underscores, and nothing else.\<close>
  "identifier_shaped s = (case s of [] \<Rightarrow> False | c # cs \<Rightarrow> ident_start c \<and> list_all ident_char cs)"

definition re_match_identifier :: "string \<Rightarrow> bool" where
  \<comment> \<open>\<open>re.match(r"[_a-zA-Z][_a-zA-Z0-9]*$", s)\<close>: \<open>$\<close> matches at the end of the
      string and also just before a newline that ends it.\<close>
  "re_match_identifier s =
     (case s of
        [] \<Rightarrow> False
      | c # cs \<Rightarrow>
          ident_start c \<and>
          (list_all ident_char cs \<or>
           (cs \<noteq> [] \<and> last cs = CHR 0x0A \<and> list_all ident_char (butlast cs))))"

definition startswith :: "string \<Rightarrow> string \<Rightarrow> int \<Rightarrow> bool" where
  \<comment> \<open>\<open>cont.startswith(prefix, start)\<close>: a negative start counts from the end
      (clamped at 0); a start past the end matches nothing, not even the empty prefix.\<close>
  "startswith cont prefix start =
     (let n = int (length cont);
          b = (if start < 0 then max 0 (start + n) else start)
      in b \<le> n - int (length prefix) \<and>
         take (length prefix) (drop (nat b) cont) = prefix)"

definition slice :: "'a list \<Rightarrow> nat \<Rightarrow> nat \<Rightarrow> 'a list" where
  \<comment> \<open>\<open>xs[i:j]\<close> for non-negative bounds.\<close>
  "slice xs i j = take (j - i) (drop i xs)"

section \<open>Token kinds and tokens\<close>

text \<open>
  Modelled from the spec: the token kind registry (\<open>token_kinds\<close>) and the \<open>TokenKind\<close>
  class are not among the sources. A kind is a symbol or a keyword with its canonical
  spelling, or one of the two kinds with dynamic content; these have no fixed spelling,
  which \<open>text_repr\<close> gives as the empty string.
\<close>

datatype TokenKind = Symbol string | Keyword string | Identifier | Number

fun text_repr :: "TokenKind \<Rightarrow> string" where
  "text_repr (Symbol s) = s"
| "text_repr (Keyword s) = s"
| "text_repr Identifier = []"
| "text_repr Number = []"

text \<open>
  Modelled from the spec: the kinds of \<open>token_kinds\<close> that the statement parser names,
  with the spellings the specification gives them.
\<close>

definition open_brack :: TokenKind where "open_brack = Symbol ''{''"
definition close_brack :: TokenKind where "close_brack = Symbol ''}''"
definition open_paren :: TokenKind where "open_paren = Symbol ''(''"
definition close_paren :: TokenKind where "close_paren = Symbol '')''"
definition semicolon :: TokenKind where "semicolon = Symbol '';''"
definition return_kw :: TokenKind where "return_kw = Keyword ''return''"
definition if_kw :: TokenKind where "if_kw = Keyword ''if''"
definition else_kw :: TokenKind where "else_kw = Keyword ''else''"
definition while_kw :: TokenKind where "while_kw = Keyword ''while''"

text \<open>
  Modelled from the spec: the \<open>Token\<close> class (\<open>tokens\<close>) is not among the sources. A token
  has a kind, an optional content (present for identifiers and numbers only), and the
  file name and line number that the caller of the per-line tokenizer sets afterwards.
\<close>

record Token =
  kind :: TokenKind
  content :: "string option"
  file_name :: "string option"
  line_num :: "int option"

definition Token_init :: "TokenKind \<Rightarrow> string option \<Rightarrow> Token" where
  \<comment> \<open>\<open>Token(kind)\<close> and \<open>Token(kind, content)\<close>.\<close>
  "Token_init k c = \<lparr>kind = k, content = c, file_name = None, line_num = None\<rparr>"

text \<open>
  Modelled from the spec: the rendering of a token is the stored content of an identifier
  or number, and the canonical spelling of its kind for a token without content.
\<close>

definition Token_str :: "Token \<Rightarrow> string" where
  "Token_str t = (case content t of Some c \<Rightarrow> c | None \<Rightarrow> text_repr (kind t))"

section \<open>errors.py\<close>

record CompilerError =
  descrip :: string
  file_name :: "string option"
  line_num :: "int option"

definition CompilerError_init ::
  "'a CompilerError_scheme \<Rightarrow> string \<Rightarrow> string option \<Rightarrow> int option \<Rightarrow> 'a CompilerError_scheme" where
  \<comment> \<open>\<open>CompilerError.__init__\<close> on the object \<open>self\<close>.\<close>
  "CompilerError_init self d f l = self\<lparr>descrip := d, file_name := f, line_num := l\<rparr>"

definition CompilerError_new :: "string \<Rightarrow> string option \<Rightarrow> int option \<Rightarrow> CompilerError" where
  \<comment> \<open>\<open>CompilerError(descrip, file_name, line_num)\<close>.\<close>
  "CompilerError_new d f l = \<lparr>descrip = d, file_name = f, line_num = l\<rparr>"

definition CompilerError_str :: "'a CompilerError_scheme \<Rightarrow> string" where
  \<comment> \<open>\<open>CompilerError.__str__\<close>; the two tests are Python truth tests.\<close>
  "CompilerError_str self =
     (if truthy_str (file_name self) \<and> truthy_int (line_num self) then
        format_str_opt (file_name self) @ '':'' @ format_int_opt (line_num self) @
        '': error: '' @ descrip self
      else if truthy_str (file_name self) then
        format_str_opt (file_name self) @ '': error: '' @ descrip self
      else ''shivyc: error: '' @ descrip self)"

definition token_error ::
  "(string \<Rightarrow> string \<Rightarrow> pyexn + string) \<Rightarrow> string \<Rightarrow> Token \<Rightarrow> pyexn + CompilerError" where
  \<comment> \<open>\<open>token_error(descrip, token)\<close>. The built-in \<open>str.format\<close> with one argument
      is the parameter \<open>fmt\<close>; it may raise.\<close>
  "token_error fmt d token =
     (case fmt d (Token_str token) of
        Inl x \<Rightarrow> Inl x
      | Inr text \<Rightarrow> Inr (CompilerError_new text (Token.file_name token) (Token.line_num token)))"

record ParserError = CompilerError +
  amount_parsed :: int

definition AT :: int where "AT = 1"
definition GOT :: int where "GOT = 2"
definition AFTER :: int where "AFTER = 3"

definition ParserError_init :: "string \<Rightarrow> int \<Rightarrow> Token list \<Rightarrow> int \<Rightarrow> pyexn + ParserError" where
  \<comment> \<open>\<open>ParserError(message, index, tokens, message_type)\<close>. \<open>self\<close> starts with
      \<open>amount_parsed\<close> set; the other fields are written by every \<open>super().__init__\<close>
      and are never read before. The branch for an empty token list does not return.\<close>
  "ParserError_init message index toks message_type =
     (let self = \<lparr>descrip = [], file_name = None, line_num = None, amount_parsed = index\<rparr>;
          self = (if length toks = 0
                  then CompilerError_init self (message @ '' at beginning of source'') None None
                  else self);
          (index, message_type) =
            (if index \<ge> int (length toks) then (int (length toks), AFTER)
             else if index \<le> 0 then (0, if message_type = AFTER then GOT else message_type)
             else (index, message_type))
      in if message_type = AT then
           (case getitem toks index of
              Inl x \<Rightarrow> Inl x
            | Inr t \<Rightarrow>
                Inr (CompilerError_init self (message @ '' at '' @ quote @ Token_str t @ quote)
                       (Token.file_name t) (Token.line_num t)))
         else if message_type = GOT then
           (case getitem toks index of
              Inl x \<Rightarrow> Inl x
            | Inr t \<Rightarrow>
                Inr (CompilerError_init self (message @ '', got '' @ quote @ Token_str t @ quote)
                       (Token.file_name t) (Token.line_num t)))
         else if message_type = AFTER then
           (case getitem toks (index - 1) of
              Inl x \<Rightarrow> Inl x
            | Inr t \<Rightarrow>
                Inr (CompilerError_init self (message @ '' after '' @ quote @ Token_str t @ quote)
                       (Token.file_name t) (Token.line_num t)))
         else Inl ValueError)"

definition anchor :: "int \<Rightarrow> nat \<Rightarrow> int \<Rightarrow> int" where
  \<comment> \<open>The position of the token a message is anchored on, after clamping.\<close>
  "anchor index n message_type =
     (if index \<ge> int n then int n - 1
      else if index \<le> 0 then 0
      else if message_type = AFTER then index - 1
      else index)"

section \<open>lexer.py\<close>

record Lexer =
  symbol_kinds :: "TokenKind list"
  keyword_kinds :: "TokenKind list"

definition Lexer_init :: "TokenKind list \<Rightarrow> TokenKind list \<Rightarrow> Lexer" where
  \<comment> \<open>\<open>sorted\<close> is stable, as \<open>sort_key\<close> is.\<close>
  "Lexer_init sks kks =
     \<lparr>symbol_kinds = sort_key (\<lambda>k. - int (length (text_repr k))) sks,
      keyword_kinds = sort_key (\<lambda>k. - int (length (text_repr k))) kks\<rparr>"

definition match_symbol_kind_at :: "Lexer \<Rightarrow> string \<Rightarrow> int \<Rightarrow> TokenKind option" where
  "match_symbol_kind_at self cont start =
     find (\<lambda>symbol_kind. startswith cont (text_repr symbol_kind) start) (symbol_kinds self)"

definition match_keyword_kind :: "Lexer \<Rightarrow> string \<Rightarrow> TokenKind option" where
  "match_keyword_kind self token_repr =
     find (\<lambda>keyword_kind. text_repr keyword_kind = token_repr) (keyword_kinds self)"

definition match_number_string :: "string \<Rightarrow> string option" where
  "match_number_string token_repr = (if isdigit token_repr then Some token_repr else None)"

definition match_identifier_name :: "string \<Rightarrow> string option" where
  "match_identifier_name token_repr =
     (if re_match_identifier token_repr then Some token_repr else None)"

definition add_chunk :: "Lexer \<Rightarrow> string \<Rightarrow> Token list \<Rightarrow> CompilerError + Token list" where
  \<comment> \<open>Returns the token list after the append; \<open>Inl\<close> is the raised error.\<close>
  "add_chunk self chunk toks =
     (if chunk \<noteq> [] then
        (case match_keyword_kind self chunk of
           Some keyword_kind \<Rightarrow> Inr (toks @ [Token_init keyword_kind None])
         | None \<Rightarrow>
             if truthy_str (match_number_string chunk) then
               Inr (toks @ [Token_init Number (match_number_string chunk)])
             else if truthy_str (match_identifier_name chunk) then
               Inr (toks @ [Token_init Identifier (match_identifier_name chunk)])
             else
               Inl (CompilerError_new (''unrecognized token at '' @ quote @ chunk @ quote)
                      None None))
      else Inr toks)"

partial_function (option) tokenize_loop ::
  "Lexer \<Rightarrow> string \<Rightarrow> nat \<Rightarrow> nat \<Rightarrow> Token list \<Rightarrow> (CompilerError + nat \<times> nat \<times> Token list) option" where
  \<comment> \<open>The \<open>while\<close> loop of \<open>tokenize_line\<close> on \<open>(chunk_start, chunk_end, tokens)\<close>;
      \<open>None\<close> is a loop that does not end (a matched symbol kind with an empty spelling
      makes no progress). The test \<open>if symbol_kind:\<close> holds for every kind object.\<close>
  "tokenize_loop self line chunk_start chunk_end toks =
     (if chunk_end < length line then
        (case match_symbol_kind_at self line (int chunk_end) of
           Some symbol_kind \<Rightarrow>
             (case add_chunk self (slice line chunk_start chunk_end) toks of
                Inl e \<Rightarrow> Some (Inl e)
              | Inr toks1 \<Rightarrow>
                  tokenize_loop self line
                    (chunk_end + length (text_repr symbol_kind))
                    (chunk_end + length (text_repr symbol_kind))
                    (toks1 @ [Token_init symbol_kind None]))
         | None \<Rightarrow>
             if isspace (line ! chunk_end) then
               (case add_chunk self (slice line chunk_start chunk_end) toks of
                  Inl e \<Rightarrow> Some (Inl e)
                | Inr toks1 \<Rightarrow> tokenize_loop self line (chunk_end + 1) (chunk_end + 1) toks1)
             else tokenize_loop self line chunk_start (chunk_end + 1) toks)
      else Some (Inr (chunk_start, chunk_end, toks)))"

declare tokenize_loop.simps [code]

definition tokenize_line :: "Lexer \<Rightarrow> string \<Rightarrow> (CompilerError + Token list) option" where
  "tokenize_line self line =
     (case tokenize_loop self line 0 0 [] of
        None \<Rightarrow> None
      | Some (Inl e) \<Rightarrow> Some (Inl e)
      | Some (Inr (chunk_start, chunk_end, toks)) \<Rightarrow>
          Some (add_chunk self (slice line chunk_start chunk_end) toks))"

fun tokenize_lines ::
  "Lexer \<Rightarrow> (string \<times> string \<times> int) list \<Rightarrow> Token list \<Rightarrow> (CompilerError + Token list) option" where
  \<comment> \<open>The \<open>for\<close> loop of \<open>tokenize\<close> with \<open>all_tokens\<close> as accumulator.\<close>
  "tokenize_lines self [] all_tokens = Some (Inr all_tokens)"
| "tokenize_lines self (line_with_info # rest) all_tokens =
     (case tokenize_line self (fst line_with_info) of
        None \<Rightarrow> None
      | Some (Inl e) \<Rightarrow>
          Some (Inl (e\<lparr>file_name := Some (fst (snd line_with_info)),
                       line_num := Some (snd (snd line_with_info))\<rparr>))
      | Some (Inr toks) \<Rightarrow>
          tokenize_lines self rest
            (all_tokens @
             map (\<lambda>token. token\<lparr>Token.file_name := Some (fst (snd line_with_info)),
                                 Token.line_num := Some (snd (snd line_with_info))\<rparr>) toks))"

definition tokenize :: "Lexer \<Rightarrow> (string \<times> string \<times> int) list \<Rightarrow> (CompilerError + Token list) option" where
  "tokenize self code_lines = tokenize_lines self code_lines []"

section \<open>parser/statement.py\<close>

text \<open>
  Modelled from the spec: the node classes of \<open>tree.nodes\<close> are not among the sources.
  A node has one of the five statement shapes, or is an expression or declaration node,
  whose shape is left open; the range annotation is an attribute every node can carry.
\<close>

datatype 'x node = Node (shape: "'x shape") (node_range: "(int \<times> int) option")
and 'x shape =
    Compound "'x node list"
  | Return "'x node"
  | IfStatement "'x node" "'x node" "'x node option"
  | WhileStatement "'x node" "'x node"
  | ExprStatement "'x node"
  | Opaque 'x

text \<open>
  What a parsing function raises: a \<open>ParserError\<close>, or the built-in exception that the
  construction of a \<open>ParserError\<close> ended with. A result is the raised exception or the
  returned value, with the state of the error log after the call; \<open>None\<close> is a call that
  does not return within the depth given to it.
\<close>

datatype exn = Builtin pyexn | Parser ParserError

type_synonym ('a, 's) res = "((exn + 'a) \<times> 's) option"

text \<open>
  The token list and the error log are module state of \<open>parser.utils\<close>; the expression
  and declaration parsers and \<open>log_error\<close> are not among the sources and are taken as
  parameters, as is the text of the message that names an expected kind.
\<close>

record ('x, 's) parser_env =
  env_tokens :: "Token list"
  parse_expression :: "int \<Rightarrow> 's \<Rightarrow> (exn + 'x node \<times> int) \<times> 's"
  parse_declaration :: "int \<Rightarrow> 's \<Rightarrow> (exn + 'x node \<times> int) \<times> 's"
  log_error :: "ParserError \<Rightarrow> 's \<Rightarrow> 's"
  expected_message :: "TokenKind \<Rightarrow> string"

text \<open>
  Modelled from the spec: \<open>token_is\<close> of \<open>parser.utils\<close> holds iff the index is within
  the token list and the token there has the given kind.
\<close>

definition token_is :: "('x, 's) parser_env \<Rightarrow> int \<Rightarrow> TokenKind \<Rightarrow> bool" where
  "token_is env index k =
     (0 \<le> index \<and> index < int (length (env_tokens env)) \<and>
      kind (env_tokens env ! nat index) = k)"

text \<open>
  Modelled from the spec: \<open>match_token\<close> of \<open>parser.utils\<close> returns the next index when
  the token has the expected kind, and otherwise raises the \<open>ParserError\<close> built from a
  message naming the kind, the index, the whole token list and the given style.
\<close>

definition match_token :: "('x, 's) parser_env \<Rightarrow> int \<Rightarrow> TokenKind \<Rightarrow> int \<Rightarrow> exn + int" where
  "match_token env index k message_type =
     (if token_is env index k then Inr (index + 1)
      else (case ParserError_init (expected_message env k) index (env_tokens env) message_type of
              Inl x \<Rightarrow> Inl (Builtin x)
            | Inr e \<Rightarrow> Inl (Parser e)))"

text \<open>
  Modelled from the spec: the wrapper \<open>add_range\<close> attaches to a returned node the span
  from the starting index to the index before the returned one, and leaves a failure as
  it is. It is applied to the result of the wrapped body.
\<close>

definition add_range :: "int \<Rightarrow> ('x node \<times> int, 's) res \<Rightarrow> ('x node \<times> int, 's) res" where
  "add_range start_index result =
     (case result of
        Some (Inr (nd, end_index), s) \<Rightarrow>
          Some (Inr (Node (shape nd) (Some (start_index, end_index - 1)), end_index), s)
      | other \<Rightarrow> other)"

definition and_then :: "('a, 's) res \<Rightarrow> ('a \<Rightarrow> 's \<Rightarrow> ('b, 's) res) \<Rightarrow> ('b, 's) res" where
  \<comment> \<open>One statement after another: an exception of the first ends the function.\<close>
  "and_then m f =
     (case m of
        None \<Rightarrow> None
      | Some (Inl x, s) \<Rightarrow> Some (Inl x, s)
      | Some (Inr a, s) \<Rightarrow> f a s)"

definition try_except :: "('a, 's) res \<Rightarrow> (ParserError \<Rightarrow> 's \<Rightarrow> ('a, 's) res) \<Rightarrow> ('a, 's) res" where
  \<comment> \<open>\<open>try: return ... except ParserError as e: ...\<close>; the handler's result is what
      the rest of the function gives.\<close>
  "try_except attempt handler =
     (case attempt of
        Some (Inl (Parser e), s) \<Rightarrow> handler e s
      | other \<Rightarrow> other)"

definition parse_return :: "('x, 's) parser_env \<Rightarrow> int \<Rightarrow> 's \<Rightarrow> ('x node \<times> int, 's) res" where
  "parse_return env index s = add_range index
     (and_then (Some (match_token env index return_kw GOT, s)) (\<lambda>index s.
      and_then (Some (parse_expression env index s)) (\<lambda>(nd, index) s.
      and_then (Some (match_token env index semicolon AFTER, s)) (\<lambda>index s.
      Some (Inr (Node (Return nd) None, index), s)))))"

definition parse_expr_statement :: "('x, 's) parser_env \<Rightarrow> int \<Rightarrow> 's \<Rightarrow> ('x node \<times> int, 's) res" where
  "parse_expr_statement env index s = add_range index
     (and_then (Some (parse_expression env index s)) (\<lambda>(nd, index) s.
      and_then (Some (match_token env index semicolon AFTER, s)) (\<lambda>index s.
      Some (Inr (Node (ExprStatement nd) None, index), s))))"

function (sequential) parse_statement :: "nat \<Rightarrow> ('x, 's) parser_env \<Rightarrow> int \<Rightarrow> 's \<Rightarrow> ('x node \<times> int, 's) res"
and parse_compound_statement :: "nat \<Rightarrow> ('x, 's) parser_env \<Rightarrow> int \<Rightarrow> 's \<Rightarrow> ('x node \<times> int, 's) res"
and compound_items ::
  "nat \<Rightarrow> ('x, 's) parser_env \<Rightarrow> 'x node list \<Rightarrow> int \<Rightarrow> 's \<Rightarrow> ('x node list \<times> int, 's) res"
and parse_if_statement :: "nat \<Rightarrow> ('x, 's) parser_env \<Rightarrow> int \<Rightarrow> 's \<Rightarrow> ('x node \<times> int, 's) res"
and parse_while_statement :: "nat \<Rightarrow> ('x, 's) parser_env \<Rightarrow> int \<Rightarrow> 's \<Rightarrow> ('x node \<times> int, 's) res"
where
  "parse_statement 0 env index s = None"
| "parse_statement (Suc depth) env index s = add_range index
     (try_except (parse_compound_statement depth env index s) (\<lambda>e s.
      try_except (parse_return env index (log_error env e s)) (\<lambda>e s.
      try_except (parse_if_statement depth env index (log_error env e s)) (\<lambda>e s.
      try_except (parse_while_statement depth env index (log_error env e s)) (\<lambda>e s.
      parse_expr_statement env index (log_error env e s))))))"
| "parse_compound_statement 0 env index s = None"
| "parse_compound_statement (Suc depth) env index s = add_range index
     (and_then (Some (match_token env index open_brack GOT, s)) (\<lambda>index s.
      and_then (compound_items depth env [] index s) (\<lambda>(nodes, index) s.
      and_then (Some (match_token env index close_brack GOT, s)) (\<lambda>index s.
      Some (Inr (Node (Compound nodes) None, index), s)))))"
| "compound_items 0 env nodes index s = None"
| "compound_items (Suc depth) env nodes index s =
     (case parse_statement depth env index s of
        None \<Rightarrow> None
      | Some (Inr (nd, index1), s1) \<Rightarrow> compound_items depth env (nodes @ [nd]) index1 s1
      | Some (Inl (Builtin x), s1) \<Rightarrow> Some (Inl (Builtin x), s1)
      | Some (Inl (Parser e), s1) \<Rightarrow>
          (case parse_declaration env index (log_error env e s1) of
             (Inr (nd, index1), s2) \<Rightarrow> compound_items depth env (nodes @ [nd]) index1 s2
           | (Inl (Builtin x), s2) \<Rightarrow> Some (Inl (Builtin x), s2)
           | (Inl (Parser e2), s2) \<Rightarrow> Some (Inr (nodes, index), log_error env e2 s2)))"
| "parse_if_statement 0 env index s = None"
| "parse_if_statement (Suc depth) env index s = add_range index
     (and_then (Some (match_token env index if_kw GOT, s)) (\<lambda>index s.
      and_then (Some (match_token env index open_paren AFTER, s)) (\<lambda>index s.
      and_then (Some (parse_expression env index s)) (\<lambda>(conditional, index) s.
      and_then (Some (match_token env index close_paren AFTER, s)) (\<lambda>index s.
      and_then (parse_statement depth env index s) (\<lambda>(statement, index) s.
      if \<not> token_is env index else_kw then
        Some (Inr (Node (IfStatement conditional statement None) None, index), s)
      else
        and_then (Some (match_token env index else_kw GOT, s)) (\<lambda>index s.
        and_then (parse_statement depth env index s) (\<lambda>(else_statement, index) s.
        Some (Inr (Node (IfStatement conditional statement (Some else_statement)) None, index),
              s)))))))))"
| "parse_while_statement 0 env index s = None"
| "parse_while_statement (Suc depth) env index s = add_range index
     (and_then (Some (match_token env index while_kw GOT, s)) (\<lambda>index s.
      and_then (Some (match_token env index open_paren AFTER, s)) (\<lambda>index s.
      and_then (Some (parse_expression env index s)) (\<lambda>(conditional, index) s.
      and_then (Some (match_token env index close_paren AFTER, s)) (\<lambda>index s.
      and_then (parse_statement depth env index s) (\<lambda>(statement, index) s.
      Some (Inr (Node (WhileStatement conditional statement) None, index), s)))))))"
  by pat_completeness auto
termination
  by (relation "measure (\<lambda>v. case v of
        Inl (Inl (d, _)) \<Rightarrow> d
      | Inl (Inr (d, _)) \<Rightarrow> d
      | Inr (Inl (d, _)) \<Rightarrow> d
      | Inr (Inr (Inl (d, _))) \<Rightarrow> d
      | Inr (Inr (Inr (d, _))) \<Rightarrow> d)") auto

text \<open>
  The dispatch of \<open>parse_statement\<close> as the specification words it: the alternatives
  are tried in the order of the list, each from the same index; a \<open>ParserError\<close> of an
  alternative in the list is logged and the next one is tried; the final alternative is
  not guarded. Any other outcome of an alternative is the outcome of the dispatch.
\<close>

fun try_in_order ::
  "(ParserError \<Rightarrow> 's \<Rightarrow> 's) \<Rightarrow> (int \<Rightarrow> 's \<Rightarrow> ('a, 's) res) list \<Rightarrow>
   (int \<Rightarrow> 's \<Rightarrow> ('a, 's) res) \<Rightarrow> int \<Rightarrow> 's \<Rightarrow> ('a, 's) res" where
  "try_in_order lg [] final index s = final index s"
| "try_in_order lg (alt # alts) final index s =
     (case alt index s of
        Some (Inl (Parser e), s1) \<Rightarrow> try_in_order lg alts final index (lg e s1)
      | other \<Rightarrow> other)"

section \<open>Kind tables and predicates used in the statements\<close>

text \<open>
  The kind tables of \<open>token_kinds\<close> are not among the sources, so the lexer is verified for
  every pair of kind lists with the properties of C operator and reserved-word tables:
  a symbol spelling is not empty and has no letter, digit or underscore; a keyword spelling
  is identifier-shaped; within each list the spellings are pairwise distinct.
\<close>

definition standard_kinds :: "TokenKind list \<Rightarrow> TokenKind list \<Rightarrow> bool" where
  "standard_kinds sks kks \<longleftrightarrow>
     (\<forall>k\<in>set sks. text_repr k \<noteq> [] \<and> (\<forall>c\<in>set (text_repr k). \<not> ident_char c)) \<and>
     (\<forall>k\<in>set kks. identifier_shaped (text_repr k)) \<and>
     distinct (map text_repr sks) \<and> distinct (map text_repr kks)"

text \<open>
  Modelled from the spec: a concrete instance of the two kind tables, holding the kinds
  whose spellings the specification mentions.
\<close>

definition spec_symbol_kinds :: "TokenKind list" where
  "spec_symbol_kinds =
     [Symbol ''+'', Symbol ''+='', Symbol ''<'', Symbol ''<<'', Symbol ''<<='',
      open_brack, close_brack, open_paren, close_paren, semicolon]"

definition spec_keyword_kinds :: "TokenKind list" where
  "spec_keyword_kinds = [return_kw, if_kw, else_kw, while_kw]"

definition stamped :: "Token \<Rightarrow> bool" where
  \<comment> \<open>The token carries a file name and a line number.\<close>
  "stamped t \<longleftrightarrow> Token.file_name t \<noteq> None \<and> Token.line_num t \<noteq> None"

definition both_or_neither :: "'a CompilerError_scheme \<Rightarrow> bool" where
  "both_or_neither e \<longleftrightarrow> (file_name e = None \<longleftrightarrow> line_num e = None)"

text \<open>
  A parser environment for concrete runs: the tokens of \<open>{ return 5 ; }\<close> on line 1 of
  \<open>main.c\<close>, an expression parser that accepts exactly one number token, a declaration
  parser that always fails, and an error log that keeps every logged error in order.
\<close>

definition demo_tokens :: "Token list" where
  "demo_tokens =
     map (\<lambda>(k, c). \<lparr>kind = k, content = c, file_name = Some ''main.c'', line_num = Some 1\<rparr>)
       [(open_brack, None), (return_kw, None), (Number, Some ''5''), (semicolon, None),
        (close_brack, None)]"

definition demo_env :: "(string, ParserError list) parser_env" where
  "demo_env =
     \<lparr>env_tokens = demo_tokens,
      parse_expression = (\<lambda>index s.
        if 0 \<le> index \<and> index < int (length demo_tokens) \<and>
           kind (demo_tokens ! nat index) = Number
        then (Inr (Node (Opaque (Token_str (demo_tokens ! nat index))) (Some (index, index)),
                   index + 1), s)
        else (Inl (Parser \<lparr>descrip = ''expected expression'', file_name = None,
                            line_num = None, amount_parsed = index\<rparr>), s)),
      parse_declaration = (\<lambda>index s.
        (Inl (Parser \<lparr>descrip = ''expected declaration'', file_name = None,
                       line_num = None, amount_parsed = index\<rparr>), s)),
      log_error = (\<lambda>e s. s @ [e]),
      expected_message = (\<lambda>k. ''expected '' @ text_repr k)\<rparr>"

section \<open>Error construction and rendering\<close>

lemma getitem_empty: "getitem [] i = Inl IndexError"
  by (simp add: getitem_def Let_def)

lemma getitem_nat: "i < length xs \<Longrightarrow> getitem xs (int i) = Inr (xs ! i)"
  by (simp add: getitem_def Let_def)

lemma getitem_last: "xs \<noteq> [] \<Longrightarrow> getitem xs (int (length xs) - 1) = Inr (last xs)"
  by (simp add: getitem_def Let_def last_conv_nth nat_diff_distrib')

lemma ParserError_init_fields:
  assumes "toks \<noteq> []"
    and "ParserError_init message index toks message_type = Inr e"
  shows "amount_parsed e = index
       \<and> 0 \<le> anchor index (length toks) message_type
       \<and> anchor index (length toks) message_type < int (length toks)
       \<and> file_name e = Token.file_name (toks ! nat (anchor index (length toks) message_type))
       \<and> line_num e = Token.line_num (toks ! nat (anchor index (length toks) message_type))
       \<and> (\<exists>how. descrip e =
             message @ how @ quote @
             Token_str (toks ! nat (anchor index (length toks) message_type)) @ quote)"
proof -
  have len: "0 < length toks" using assms(1) by simp
  consider (big) "int (length toks) \<le> index"
    | (small) "index \<le> 0" "index < int (length toks)"
    | (mid) "0 < index" "index < int (length toks)"
    by linarith
  then show ?thesis
  proof cases
    case big
    have gl: "getitem toks (int (length toks) - 1) = Inr (last toks)"
      using getitem_last [OF assms(1)] .
    have a: "anchor index (length toks) message_type = int (length toks) - 1"
      using big by (simp add: anchor_def)
    have n: "toks ! nat (int (length toks) - 1) = last toks"
      using assms(1) by (simp add: last_conv_nth nat_diff_distrib')
    show ?thesis
      using assms(2) big len unfolding a n
      by (auto simp add: ParserError_init_def gl AFTER_def AT_def GOT_def CompilerError_init_def
          Let_def)
  next
    case small
    have g0: "getitem toks 0 = Inr (toks ! 0)"
      using getitem_nat [OF len] by simp
    have a: "anchor index (length toks) message_type = 0"
      using small by (simp add: anchor_def)
    show ?thesis
      using assms(2) small len unfolding a
      by (auto simp add: ParserError_init_def g0 AFTER_def AT_def GOT_def CompilerError_init_def
          Let_def split: if_splits)
  next
    case mid
    have gi: "getitem toks index = Inr (toks ! nat index)"
      using mid by (simp add: getitem_def)
    have gp: "getitem toks (index - 1) = Inr (toks ! nat (index - 1))"
      using mid by (simp add: getitem_def)
    have a: "anchor index (length toks) message_type =
               (if message_type = AFTER then index - 1 else index)"
      using mid by (simp add: anchor_def)
    show ?thesis
      using assms(2) mid len unfolding a
      by (auto simp add: ParserError_init_def gi gp AFTER_def AT_def GOT_def CompilerError_init_def
          Let_def split: if_splits)
  qed
qed

lemma ParserError_init_from_token:
  assumes "ParserError_init message index toks message_type = Inr e"
  shows "\<exists>t\<in>set toks. file_name e = Token.file_name t \<and> line_num e = Token.line_num t"
proof (cases "toks = []")
  case True
  with assms show ?thesis
    by (simp add: ParserError_init_def getitem_empty Let_def split: if_splits)
next
  case False
  from ParserError_init_fields [OF False assms]
  have "0 \<le> anchor index (length toks) message_type"
    and "anchor index (length toks) message_type < int (length toks)"
    and "file_name e = Token.file_name (toks ! nat (anchor index (length toks) message_type))"
    and "line_num e = Token.line_num (toks ! nat (anchor index (length toks) message_type))"
    by simp_all
  moreover from calculation(1,2)
  have "toks ! nat (anchor index (length toks) message_type) \<in> set toks"
    by (intro nth_mem) linarith
  ultimately show ?thesis by blast
qed

lemma token_error_fields:
  assumes "token_error fmt d t = Inr ce"
  shows "file_name ce = Token.file_name t \<and> line_num ce = Token.line_num t"
  using assms by (auto simp add: token_error_def CompilerError_new_def split: sum.splits)

text \<open>
  C1. The claim is that constructing a \<open>ParserError\<close> with an empty token sequence
  succeeds and gives the description \<open><message> at beginning of source\<close> with no file
  name and no line number. The constructor does not return after that branch: for every
  message, index and style it goes on to index the empty list and ends with an exception,
  \<open>IndexError\<close> in all cases but one (a negative index with an unknown style, which ends
  with \<open>ValueError\<close>). No error value is ever produced from an empty token sequence.
\<close>

theorem ParserError_empty_raises:
  "ParserError_init message index [] message_type =
     Inl (if index < 0 \<and> message_type \<noteq> AT \<and> message_type \<noteq> GOT \<and> message_type \<noteq> AFTER
          then ValueError else IndexError)"
  by (simp add: ParserError_init_def getitem_empty AT_def GOT_def AFTER_def Let_def)

text \<open>
  C2. For a non-empty token sequence: an index at or past the end gives the AFTER form on
  the last token of the sequence, whatever style was requested; an index at or below zero
  anchors the message on the token at position 0, in the AT form if AT was requested and
  in the GOT form if GOT or AFTER was requested.
\<close>

theorem ParserError_boundary:
  assumes "toks \<noteq> []"
  shows "(int (length toks) \<le> index \<longrightarrow>
           ParserError_init message index toks message_type =
             Inr \<lparr>descrip = message @ '' after '' @ quote @ Token_str (last toks) @ quote,
                  file_name = Token.file_name (last toks),
                  line_num = Token.line_num (last toks),
                  amount_parsed = index\<rparr>)
       \<and> (index \<le> 0 \<and> message_type = AT \<longrightarrow>
           ParserError_init message index toks message_type =
             Inr \<lparr>descrip = message @ '' at '' @ quote @ Token_str (toks ! 0) @ quote,
                  file_name = Token.file_name (toks ! 0),
                  line_num = Token.line_num (toks ! 0),
                  amount_parsed = index\<rparr>)
       \<and> (index \<le> 0 \<and> (message_type = GOT \<or> message_type = AFTER) \<longrightarrow>
           ParserError_init message index toks message_type =
             Inr \<lparr>descrip = message @ '', got '' @ quote @ Token_str (toks ! 0) @ quote,
                  file_name = Token.file_name (toks ! 0),
                  line_num = Token.line_num (toks ! 0),
                  amount_parsed = index\<rparr>)"
proof -
  have len: "0 < length toks" using assms by simp
  have g0: "getitem toks 0 = Inr (toks ! 0)"
    using getitem_nat [OF len] by simp
  have gl: "getitem toks (int (length toks) - 1) = Inr (last toks)"
    using getitem_last [OF assms] .
  have big: "ParserError_init message index toks message_type =
             Inr \<lparr>descrip = message @ '' after '' @ quote @ Token_str (last toks) @ quote,
                  file_name = Token.file_name (last toks),
                  line_num = Token.line_num (last toks),
                  amount_parsed = index\<rparr>" if "int (length toks) \<le> index"
    using that assms
    by (simp add: ParserError_init_def gl AT_def GOT_def AFTER_def CompilerError_init_def Let_def)
  have small_at: "ParserError_init message index toks message_type =
             Inr \<lparr>descrip = message @ '' at '' @ quote @ Token_str (toks ! 0) @ quote,
                  file_name = Token.file_name (toks ! 0),
                  line_num = Token.line_num (toks ! 0),
                  amount_parsed = index\<rparr>" if "index \<le> 0" "message_type = AT"
  proof -
    have "\<not> int (length toks) \<le> index" using that(1) len by linarith
    then show ?thesis using that assms
      by (simp add: ParserError_init_def g0 AT_def GOT_def AFTER_def CompilerError_init_def Let_def)
  qed
  have small_got: "ParserError_init message index toks message_type =
             Inr \<lparr>descrip = message @ '', got '' @ quote @ Token_str (toks ! 0) @ quote,
                  file_name = Token.file_name (toks ! 0),
                  line_num = Token.line_num (toks ! 0),
                  amount_parsed = index\<rparr>"
    if "index \<le> 0" "message_type = GOT \<or> message_type = AFTER"
  proof -
    have "\<not> int (length toks) \<le> index" using that(1) len by linarith
    then show ?thesis using that assms
      by (auto simp add: ParserError_init_def g0 AT_def GOT_def AFTER_def CompilerError_init_def
          Let_def)
  qed
  from big small_at small_got show ?thesis by blast
qed

theorem ParserError_boundary_witness:
  "ParserError_init ''expected semicolon'' 9
       [Token_init Number (Some ''15''), Token_init (Symbol ''}'') None] AT =
     Inr \<lparr>descrip = ''expected semicolon after '' @ quote @ ''}'' @ quote,
          file_name = None, line_num = None, amount_parsed = 9\<rparr>
   \<and> ParserError_init ''expected semicolon'' (- 2)
       [Token_init Number (Some ''15''), Token_init (Symbol ''}'') None] AT =
     Inr \<lparr>descrip = ''expected semicolon at '' @ quote @ ''15'' @ quote,
          file_name = None, line_num = None, amount_parsed = - 2\<rparr>
   \<and> ParserError_init ''expected semicolon'' 0
       [Token_init Number (Some ''15''), Token_init (Symbol ''}'') None] AFTER =
     Inr \<lparr>descrip = ''expected semicolon, got '' @ quote @ ''15'' @ quote,
          file_name = None, line_num = None, amount_parsed = 0\<rparr>"
  using ParserError_boundary [of "[Token_init Number (Some ''15''), Token_init (Symbol ''}'') None]"
          9 "''expected semicolon''" AT]
        ParserError_boundary [of "[Token_init Number (Some ''15''), Token_init (Symbol ''}'') None]"
          "- 2" "''expected semicolon''" AT]
        ParserError_boundary [of "[Token_init Number (Some ''15''), Token_init (Symbol ''}'') None]"
          0 "''expected semicolon''" AFTER]
  by (simp add: Token_init_def Token_str_def)

text \<open>
  C3. Line numbers are 1-based and a file name is a non-empty string; for every
  \<open>CompilerError\<close> whose context fields, where present, are of that kind, the rendering
  takes one of three forms by which fields are present:
  \<open><file>:<line>: error: <descrip>\<close> when both the file name and the line number are
  present, \<open><file>: error: <descrip>\<close> when only the file name is present, and
  \<open>shivyc: error: <descrip>\<close> when the file name is absent (so also when neither is
  present). Description "bad", file "main.c", line 5 renders as \<open>main.c:5: error: bad\<close>,
  and description "bad" alone renders as \<open>shivyc: error: bad\<close>.
\<close>

theorem CompilerError_str_forms:
  assumes "\<forall>f. file_name e = Some f \<longrightarrow> f \<noteq> []"
    and "\<forall>l. line_num e = Some l \<longrightarrow> 1 \<le> l"
  shows "(file_name e \<noteq> None \<and> line_num e \<noteq> None \<longrightarrow>
      CompilerError_str e =
        the (file_name e) @ '':'' @ str_int (the (line_num e)) @ '': error: '' @ descrip e)
   \<and> (file_name e \<noteq> None \<and> line_num e = None \<longrightarrow>
      CompilerError_str e = the (file_name e) @ '': error: '' @ descrip e)
   \<and> (file_name e = None \<longrightarrow>
      CompilerError_str e = ''shivyc: error: '' @ descrip e)
   \<and> CompilerError_str (CompilerError_new ''bad'' (Some ''main.c'') (Some 5)) =
        ''main.c:5: error: bad''
   \<and> CompilerError_str (CompilerError_new ''bad'' None None) = ''shivyc: error: bad''"
proof -
  have both: "CompilerError_str e =
        the (file_name e) @ '':'' @ str_int (the (line_num e)) @ '': error: '' @ descrip e"
    if "file_name e \<noteq> None" "line_num e \<noteq> None"
  proof -
    from that obtain f l where fl: "file_name e = Some f" "line_num e = Some l" by auto
    with assms have "f \<noteq> []" "l \<noteq> 0" by auto
    with fl show ?thesis
      by (simp add: CompilerError_str_def truthy_str_def truthy_int_def format_str_opt_def
          format_int_opt_def)
  qed
  have only_file: "CompilerError_str e = the (file_name e) @ '': error: '' @ descrip e"
    if "file_name e \<noteq> None" "line_num e = None"
  proof -
    from that obtain f where f: "file_name e = Some f" by auto
    with assms have "f \<noteq> []" by auto
    with f that(2) show ?thesis
      by (simp add: CompilerError_str_def truthy_str_def truthy_int_def format_str_opt_def)
  qed
  have no_file: "CompilerError_str e = ''shivyc: error: '' @ descrip e" if "file_name e = None"
    using that by (simp add: CompilerError_str_def truthy_str_def)
  have g: "CompilerError_str (CompilerError_new ''bad'' (Some ''main.c'') (Some 5)) =
        ''main.c:5: error: bad''"
    by (simp add: CompilerError_str_def CompilerError_new_def truthy_str_def truthy_int_def
        format_str_opt_def format_int_opt_def str_int_def)
  have h: "CompilerError_str (CompilerError_new ''bad'' None None) = ''shivyc: error: bad''"
    by (simp add: CompilerError_str_def CompilerError_new_def truthy_str_def)
  from both only_file no_file g h show ?thesis by blast
qed

theorem CompilerError_str_forms_witness:
  "CompilerError_str (CompilerError_new ''bad'' (Some ''lexer.c'') (Some 12)) =
     ''lexer.c:12: error: bad''
   \<and> CompilerError_str (CompilerError_new ''bad'' (Some ''lexer.c'') None) =
     ''lexer.c: error: bad''
   \<and> CompilerError_str (CompilerError_new ''bad'' None None) = ''shivyc: error: bad''"
proof -
  have a: "CompilerError_str (CompilerError_new ''bad'' (Some ''lexer.c'') (Some 12)) =
     ''lexer.c:12: error: bad''"
    using CompilerError_str_forms [of "CompilerError_new ''bad'' (Some ''lexer.c'') (Some 12)"]
    by (simp add: CompilerError_new_def str_int_def)
  have b: "CompilerError_str (CompilerError_new ''bad'' (Some ''lexer.c'') None) =
     ''lexer.c: error: bad''"
    using CompilerError_str_forms [of "CompilerError_new ''bad'' (Some ''lexer.c'') None"]
    by (simp add: CompilerError_new_def)
  have c: "CompilerError_str (CompilerError_new ''bad'' None None) = ''shivyc: error: bad''"
    using CompilerError_str_forms [of "CompilerError_new ''bad'' None None"]
    by (simp add: CompilerError_new_def)
  from a b c show ?thesis by blast
qed

text \<open>
  C10. A \<open>ParserError\<close> constructed from a non-empty token sequence keeps in
  \<open>amount_parsed\<close> the index exactly as it was passed, also when that index is negative
  or past the end; the file name, the line number and the quoted token of the message are
  those of the token at the clamped position \<open>anchor\<close>, which lies within the sequence.
\<close>

theorem ParserError_amount_parsed:
  assumes "toks \<noteq> []"
    and "ParserError_init message index toks message_type = Inr e"
  shows "amount_parsed e = index
       \<and> 0 \<le> anchor index (length toks) message_type
       \<and> anchor index (length toks) message_type < int (length toks)
       \<and> file_name e = Token.file_name (toks ! nat (anchor index (length toks) message_type))
       \<and> line_num e = Token.line_num (toks ! nat (anchor index (length toks) message_type))
       \<and> (\<exists>how. descrip e =
             message @ how @ quote @
             Token_str (toks ! nat (anchor index (length toks) message_type)) @ quote)"
  using assms by (rule ParserError_init_fields)

theorem ParserError_amount_parsed_witness:
  "amount_parsed
     \<lparr>descrip = ''expected semicolon, got '' @ quote @ ''15'' @ quote,
      file_name = Some ''main.c'', line_num = Some 3, amount_parsed = - 4\<rparr> = - 4
   \<and> anchor (- 4) 2 AFTER = 0
   \<and> amount_parsed
     \<lparr>descrip = ''expected semicolon after '' @ quote @ ''}'' @ quote,
      file_name = Some ''main.c'', line_num = Some 4, amount_parsed = 7\<rparr> = 7
   \<and> anchor 7 2 AT = 1"
proof -
  let ?toks = "[\<lparr>kind = Number, content = Some ''15'',
                 file_name = Some ''main.c'', line_num = Some 3\<rparr>,
               \<lparr>kind = Symbol ''}'', content = None,
                 file_name = Some ''main.c'', line_num = Some 4\<rparr>]"
  have ne: "?toks \<noteq> []" by simp
  have low: "ParserError_init ''expected semicolon'' (- 4) ?toks AFTER =
      Inr \<lparr>descrip = ''expected semicolon, got '' @ quote @ ''15'' @ quote,
           file_name = Some ''main.c'', line_num = Some 3, amount_parsed = - 4\<rparr>"
    by (simp add: ParserError_init_def getitem_def AT_def GOT_def AFTER_def CompilerError_init_def
        Let_def Token_str_def)
  have high: "ParserError_init ''expected semicolon'' 7 ?toks AT =
      Inr \<lparr>descrip = ''expected semicolon after '' @ quote @ ''}'' @ quote,
           file_name = Some ''main.c'', line_num = Some 4, amount_parsed = 7\<rparr>"
    by (simp add: ParserError_init_def getitem_def AT_def GOT_def AFTER_def CompilerError_init_def
        Let_def Token_str_def)
  show ?thesis
    using ParserError_amount_parsed [OF ne low] ParserError_amount_parsed [OF ne high]
    by (simp add: anchor_def AT_def AFTER_def)
qed

section \<open>The lexer\<close>

subsection \<open>Sorting and first match\<close>

lemma startswith_nat:
  "startswith line p (int i) \<longleftrightarrow> i + length p \<le> length line \<and> take (length p) (drop i line) = p"
  by (auto simp add: startswith_def Let_def)

lemma find_first_sorted:
  assumes "find P (sort_key f xs) = Some k"
  shows "P k \<and> k \<in> set xs \<and> (\<forall>y\<in>set xs. P y \<longrightarrow> f k \<le> f y)"
proof -
  let ?ys = "sort_key f xs"
  from assms obtain i where i: "i < length ?ys" "P (?ys ! i)" "k = ?ys ! i"
    and first: "\<forall>j<i. \<not> P (?ys ! j)"
    unfolding find_Some_iff by blast
  have srt: "sorted (map f ?ys)" by simp
  have mem: "k \<in> set xs" using i(1,3) by (metis nth_mem set_sort)
  have "f k \<le> f y" if "y \<in> set xs" "P y" for y
  proof -
    from that(1) have "y \<in> set ?ys" by simp
    then obtain j where j: "j < length ?ys" "?ys ! j = y" by (metis in_set_conv_nth)
    have "\<not> j < i" using first j(2) that(2) by auto
    then have "i \<le> j" by simp
    then have "map f ?ys ! i \<le> map f ?ys ! j"
      using srt j(1) by (simp add: sorted_iff_nth_mono del: sorted_sort_key)
    then show ?thesis using i j by simp
  qed
  then show ?thesis using i mem by blast
qed

lemma find_filter_hd: "find P xs = (case filter P xs of [] \<Rightarrow> None | y # _ \<Rightarrow> Some y)"
  by (induction xs) auto

lemma find_sort_key_stable:
  assumes "find P (sort_key f xs) = Some k"
  shows "find (\<lambda>y. P y \<and> f y = f k) xs = Some k"
proof -
  let ?ys = "sort_key f xs"
  let ?Q = "\<lambda>y. P y \<and> f y = f k"
  from assms obtain i where i: "i < length ?ys" "P (?ys ! i)" "k = ?ys ! i"
    and first: "\<forall>j<i. \<not> P (?ys ! j)"
    unfolding find_Some_iff by blast
  have "find ?Q ?ys = Some k"
    unfolding find_Some_iff using i first by blast
  then have "(case filter ?Q ?ys of [] \<Rightarrow> None | y # _ \<Rightarrow> Some y) = Some k"
    by (simp add: find_filter_hd)
  moreover have "filter ?Q ?ys = filter P (filter (\<lambda>y. f y = f k) ?ys)"
    by (simp add: conj_commute)
  moreover have "filter (\<lambda>y. f y = f k) ?ys = filter (\<lambda>y. f y = f k) xs"
    by (rule sort_key_stable)
  moreover have "filter P (filter (\<lambda>y. f y = f k) xs) = filter ?Q xs"
    by (simp add: conj_commute)
  ultimately have "(case filter ?Q xs of [] \<Rightarrow> None | y # _ \<Rightarrow> Some y) = Some k"
    by simp
  then show ?thesis by (simp add: find_filter_hd)
qed

lemma find_sort_key_None: "find P (sort_key f xs) = None \<longleftrightarrow> (\<forall>y\<in>set xs. \<not> P y)"
  by (auto simp add: find_None_iff)

subsection \<open>Symbol matching\<close>

lemma add_chunk_empty: "add_chunk lx [] toks = Inr toks"
  by (simp add: add_chunk_def)

lemma slice_same: "slice xs i i = []"
  by (simp add: slice_def)

lemma match_symbol_Some:
  assumes "match_symbol_kind_at (Lexer_init sks kks) line start = Some k"
  shows "k \<in> set sks \<and> startswith line (text_repr k) start \<and>
         (\<forall>k'\<in>set sks. startswith line (text_repr k') start \<longrightarrow>
            length (text_repr k') \<le> length (text_repr k))"
  using find_first_sorted [of "\<lambda>k. startswith line (text_repr k) start"
      "\<lambda>k. - int (length (text_repr k))" sks k] assms
  by (simp add: match_symbol_kind_at_def Lexer_init_def)

lemma match_symbol_first:
  assumes "match_symbol_kind_at (Lexer_init sks kks) line start = Some k"
  shows "find (\<lambda>k'. startswith line (text_repr k') start \<and>
                     length (text_repr k') = length (text_repr k)) sks = Some k"
  using find_sort_key_stable [of "\<lambda>k. startswith line (text_repr k) start"
      "\<lambda>k. - int (length (text_repr k))" sks k] assms
  by (simp add: match_symbol_kind_at_def Lexer_init_def)

lemma match_symbol_None:
  "match_symbol_kind_at (Lexer_init sks kks) line start = None \<longleftrightarrow>
     (\<forall>k'\<in>set sks. \<not> startswith line (text_repr k') start)"
  by (simp add: match_symbol_kind_at_def Lexer_init_def find_sort_key_None)

lemma startswith_whole:
  assumes "startswith s p 0" and "length s \<le> length p"
  shows "p = s"
proof -
  from assms(1) have le: "length p \<le> length s" and t: "take (length p) s = p"
    by (simp_all add: startswith_def)
  from le assms(2) have eq: "length p = length s" by simp
  have "take (length s) s = p" using t unfolding eq .
  then show ?thesis by simp
qed

lemma startswith_self: "startswith s s 0"
  by (simp add: startswith_def)

lemma match_symbol_exact:
  assumes "find (\<lambda>k. text_repr k = s) sks = Some k" and "s \<noteq> []"
  shows "match_symbol_kind_at (Lexer_init sks kks) s 0 = Some k"
proof -
  from assms(1) have k: "k \<in> set sks" "text_repr k = s"
    by (auto simp add: find_Some_iff)
  have "match_symbol_kind_at (Lexer_init sks kks) s 0 \<noteq> None"
    using k startswith_self [of s] by (auto simp add: match_symbol_None)
  then obtain k' where k': "match_symbol_kind_at (Lexer_init sks kks) s 0 = Some k'"
    by blast
  from match_symbol_Some [OF k'] k
  have "startswith s (text_repr k') 0" "length s \<le> length (text_repr k')"
    using startswith_self [of s] by auto
  then have t: "text_repr k' = s" using startswith_whole by blast
  have eq: "(startswith s (text_repr y) 0 \<and> length (text_repr y) = length (text_repr k')) =
        (text_repr y = s)" for y
  proof
    assume "startswith s (text_repr y) 0 \<and> length (text_repr y) = length (text_repr k')"
    then show "text_repr y = s"
      using startswith_whole [of s "text_repr y"] t by simp
  next
    assume "text_repr y = s"
    then show "startswith s (text_repr y) 0 \<and> length (text_repr y) = length (text_repr k')"
      using startswith_self [of s] t by simp
  qed
  have "find (\<lambda>y. text_repr y = s) sks = Some k'"
    using match_symbol_first [OF k'] unfolding eq .
  with assms(1) have "k' = k" by simp
  with k' show ?thesis by simp
qed

subsection \<open>Steps of the scanning loop\<close>

lemma tokenize_loop_done:
  "length line \<le> ce \<Longrightarrow> tokenize_loop lx line cs ce toks = Some (Inr (cs, ce, toks))"
  by (subst tokenize_loop.simps) simp

lemma tokenize_loop_symbol:
  assumes "ce < length line" and "match_symbol_kind_at lx line (int ce) = Some k"
    and "add_chunk lx (slice line cs ce) toks = Inr toks1"
  shows "tokenize_loop lx line cs ce toks =
         tokenize_loop lx line (ce + length (text_repr k)) (ce + length (text_repr k))
           (toks1 @ [Token_init k None])"
  by (subst tokenize_loop.simps) (simp add: assms)

lemma tokenize_loop_symbol_error:
  assumes "ce < length line" and "match_symbol_kind_at lx line (int ce) = Some k"
    and "add_chunk lx (slice line cs ce) toks = Inl e"
  shows "tokenize_loop lx line cs ce toks = Some (Inl e)"
  by (subst tokenize_loop.simps) (simp add: assms)

lemma tokenize_loop_space:
  assumes "ce < length line" and "match_symbol_kind_at lx line (int ce) = None"
    and "isspace (line ! ce)" and "add_chunk lx (slice line cs ce) toks = Inr toks1"
  shows "tokenize_loop lx line cs ce toks = tokenize_loop lx line (ce + 1) (ce + 1) toks1"
  by (subst tokenize_loop.simps) (simp add: assms)

lemma tokenize_loop_extend:
  assumes "ce < length line" and "match_symbol_kind_at lx line (int ce) = None"
    and "\<not> isspace (line ! ce)"
  shows "tokenize_loop lx line cs ce toks = tokenize_loop lx line cs (ce + 1) toks"
  by (subst tokenize_loop.simps) (simp add: assms)

lemma tokenize_line_exact_symbol:
  assumes "find (\<lambda>k. text_repr k = s) sks = Some k" and "s \<noteq> []"
  shows "tokenize_line (Lexer_init sks kks) s = Some (Inr [Token_init k None])"
proof -
  let ?lx = "Lexer_init sks kks"
  from assms(1) have t: "text_repr k = s" by (auto simp add: find_Some_iff)
  have m: "match_symbol_kind_at ?lx s (int 0) = Some k"
    using match_symbol_exact [OF assms] by simp
  have pos: "0 < length s" using assms(2) by simp
  have c: "add_chunk ?lx (slice s 0 0) [] = Inr []"
    by (simp add: slice_same add_chunk_empty)
  have "tokenize_loop ?lx s 0 0 [] =
        tokenize_loop ?lx s (length s) (length s) [Token_init k None]"
    using tokenize_loop_symbol [OF pos m c] by (simp add: t)
  also have "\<dots> = Some (Inr (length s, length s, [Token_init k None]))"
    by (rule tokenize_loop_done) simp
  finally show ?thesis
    by (simp add: tokenize_line_def slice_same add_chunk_empty)
qed

lemma find_distinct:
  assumes "distinct (map f xs)" and "k \<in> set xs"
  shows "find (\<lambda>y. f y = f k) xs = Some k"
  using assms by (induction xs) auto

lemma match_keyword_kind_find:
  "match_keyword_kind (Lexer_init sks kks) chunk = find (\<lambda>k. text_repr k = chunk) kks"
proof (cases "match_keyword_kind (Lexer_init sks kks) chunk")
  case None
  then have "\<forall>y\<in>set kks. text_repr y \<noteq> chunk"
    by (simp add: match_keyword_kind_def Lexer_init_def find_sort_key_None)
  then have "find (\<lambda>k. text_repr k = chunk) kks = None"
    by (simp add: find_None_iff)
  with None show ?thesis by simp
next
  case (Some k)
  then have f: "find (\<lambda>y. text_repr y = chunk) (sort_key (\<lambda>k. - int (length (text_repr k))) kks) = Some k"
    by (simp add: match_keyword_kind_def Lexer_init_def)
  from find_first_sorted [OF f] have t: "text_repr k = chunk" by simp
  have eq: "(text_repr y = chunk \<and> - int (length (text_repr y)) = - int (length (text_repr k))) =
        (text_repr y = chunk)" for y
    using t by auto
  have "find (\<lambda>y. text_repr y = chunk) kks = Some k"
    using find_sort_key_stable [OF f] unfolding eq .
  with Some show ?thesis by simp
qed

lemma ident_char_not_space: "ident_char c \<Longrightarrow> \<not> isspace c"
  by (auto simp add: ident_char_def ident_start_def decimal_digit_def isspace_def Let_def)

lemma startswith_hd:
  assumes "startswith line p (int i)" and "p \<noteq> []"
  shows "i < length line \<and> hd p = line ! i"
proof -
  from assms(1) have le: "i + length p \<le> length line" and t: "take (length p) (drop i line) = p"
    by (simp_all add: startswith_nat)
  from le assms(2) have i: "i < length line" by (cases p) auto
  have "hd (take (length p) (drop i line)) = line ! i"
    using i assms(2) by (cases p) (simp_all add: hd_drop_conv_nth)
  with t i show ?thesis by simp
qed

lemma symbol_no_match_ident:
  assumes "\<forall>k\<in>set sks. text_repr k \<noteq> [] \<and> (\<forall>c\<in>set (text_repr k). \<not> ident_char c)"
    and "ident_char (line ! i)"
  shows "match_symbol_kind_at (Lexer_init sks kks) line (int i) = None"
proof -
  have "\<not> startswith line (text_repr k) (int i)" if "k \<in> set sks" for k
  proof
    assume s: "startswith line (text_repr k) (int i)"
    from assms(1) that have ne: "text_repr k \<noteq> []" and ni: "\<forall>c\<in>set (text_repr k). \<not> ident_char c"
      by auto
    from startswith_hd [OF s ne] have "hd (text_repr k) = line ! i" by simp
    moreover have "hd (text_repr k) \<in> set (text_repr k)" using ne by simp
    ultimately show False using ni assms(2) by auto
  qed
  then show ?thesis by (simp add: match_symbol_None)
qed

lemma tokenize_loop_scan:
  assumes "\<forall>i. ce \<le> i \<and> i < length line \<longrightarrow>
             match_symbol_kind_at lx line (int i) = None \<and> \<not> isspace (line ! i)"
    and "ce \<le> length line"
  shows "tokenize_loop lx line cs ce toks = Some (Inr (cs, length line, toks))"
  using assms
proof (induction "length line - ce" arbitrary: ce)
  case 0
  then have "ce = length line" by simp
  then show ?case by (simp add: tokenize_loop_done)
next
  case (Suc n)
  then have lt: "ce < length line" by simp
  with Suc.prems(1) have m: "match_symbol_kind_at lx line (int ce) = None"
    and sp: "\<not> isspace (line ! ce)" by auto
  have "tokenize_loop lx line cs ce toks = tokenize_loop lx line cs (ce + 1) toks"
    by (rule tokenize_loop_extend [OF lt m sp])
  also have "\<dots> = Some (Inr (cs, length line, toks))"
  proof (rule Suc.hyps(1))
    show "n = length line - (ce + 1)" using Suc.hyps(2) by simp
    show "\<forall>i. ce + 1 \<le> i \<and> i < length line \<longrightarrow>
             match_symbol_kind_at lx line (int i) = None \<and> \<not> isspace (line ! i)"
      using Suc.prems(1) by simp
    show "ce + 1 \<le> length line" using lt by simp
  qed
  finally show ?case .
qed

lemma tokenize_line_word:
  assumes "\<forall>k\<in>set sks. text_repr k \<noteq> [] \<and> (\<forall>c\<in>set (text_repr k). \<not> ident_char c)"
    and "\<forall>c\<in>set s. ident_char c"
  shows "tokenize_line (Lexer_init sks kks) s = Some (add_chunk (Lexer_init sks kks) s [])"
proof -
  let ?lx = "Lexer_init sks kks"
  have "\<forall>i. 0 \<le> i \<and> i < length s \<longrightarrow>
          match_symbol_kind_at ?lx s (int i) = None \<and> \<not> isspace (s ! i)"
    using assms symbol_no_match_ident [of sks s _ kks] ident_char_not_space by auto
  then have "tokenize_loop ?lx s 0 0 [] = Some (Inr (0, length s, []))"
    by (rule tokenize_loop_scan) simp
  then show ?thesis by (simp add: tokenize_line_def slice_def)
qed

lemma identifier_shaped_chars: "identifier_shaped s \<Longrightarrow> s \<noteq> [] \<and> (\<forall>c\<in>set s. ident_char c)"
  by (cases s) (auto simp add: identifier_shaped_def ident_char_def list_all_iff)

lemma add_chunk_keyword:
  assumes "find (\<lambda>k. text_repr k = s) kks = Some k" and "s \<noteq> []"
  shows "add_chunk (Lexer_init sks kks) s toks = Inr (toks @ [Token_init k None])"
  using assms by (simp add: add_chunk_def match_keyword_kind_find)


lemma match_symbol_at:
  assumes "find (\<lambda>k. text_repr k = s) sks = Some k"
    and "startswith line s start"
    and "\<forall>k'\<in>set sks. startswith line (text_repr k') start \<longrightarrow> length (text_repr k') \<le> length s"
  shows "match_symbol_kind_at (Lexer_init sks kks) line start = Some k"
proof -
  from assms(1) have k: "k \<in> set sks" "text_repr k = s"
    by (auto simp add: find_Some_iff)
  have "match_symbol_kind_at (Lexer_init sks kks) line start \<noteq> None"
    using k assms(2) by (auto simp add: match_symbol_None)
  then obtain k' where k': "match_symbol_kind_at (Lexer_init sks kks) line start = Some k'"
    by blast
  from match_symbol_Some [OF k']
  have mem: "k' \<in> set sks" and sw: "startswith line (text_repr k') start"
    and mx: "\<forall>y\<in>set sks. startswith line (text_repr y) start \<longrightarrow>
               length (text_repr y) \<le> length (text_repr k')"
    by blast+
  from mx k assms(2) have "length s \<le> length (text_repr k')" by blast
  moreover from assms(3) mem sw have "length (text_repr k') \<le> length s" by blast
  ultimately have len: "length (text_repr k') = length s" by simp
  have same: "p = s" if "startswith line p start" "length p = length s" for p
    using that assms(2) by (auto simp add: startswith_def Let_def)
  have eq: "(startswith line (text_repr y) start \<and> length (text_repr y) = length (text_repr k')) =
        (text_repr y = s)" for y
    using same [of "text_repr y"] assms(2) len by auto
  have "find (\<lambda>y. text_repr y = s) sks = Some k'"
    using match_symbol_first [OF k'] unfolding eq .
  with assms(1) have "k' = k" by simp
  with k' show ?thesis by simp
qed

lemma ident_a: "ident_char CHR ''a''"
  by (simp add: ident_char_def ident_start_def)

lemma ident_b: "ident_char CHR ''b''"
  by (simp add: ident_char_def ident_start_def)

lemma tokenize_line_a_plus_b:
  assumes sym: "\<forall>k\<in>set sks. text_repr k \<noteq> [] \<and> (\<forall>c\<in>set (text_repr k). \<not> ident_char c)"
    and plus: "find (\<lambda>k. text_repr k = ''+'') sks = Some plus_kind"
    and kw: "\<forall>k\<in>set kks. text_repr k \<noteq> ''a'' \<and> text_repr k \<noteq> ''b''"
  shows "tokenize_line (Lexer_init sks kks) ''a+b'' =
         Some (Inr [Token_init Identifier (Some ''a''), Token_init plus_kind None,
                    Token_init Identifier (Some ''b'')])"
proof -
  let ?lx = "Lexer_init sks kks"
  let ?l = "''a+b''"
  let ?a = "Token_init Identifier (Some ''a'')"
  let ?b = "Token_init Identifier (Some ''b'')"
  from plus have tp: "text_repr plus_kind = ''+''" by (auto simp add: find_Some_iff)
  have nk: "match_keyword_kind ?lx ''a'' = None" "match_keyword_kind ?lx ''b'' = None"
    using kw by (simp_all add: match_keyword_kind_find find_None_iff)
  have ca: "add_chunk ?lx (slice ?l 0 1) [] = Inr [?a]"
    by (simp add: slice_def add_chunk_def nk match_number_string_def isdigit_def isdigit_char_def
        match_identifier_name_def re_match_identifier_def ident_start_def truthy_str_def)
  have cb: "add_chunk ?lx (slice ?l 2 3) [?a, Token_init plus_kind None] =
            Inr [?a, Token_init plus_kind None, ?b]"
    by (simp add: slice_def add_chunk_def nk match_number_string_def isdigit_def isdigit_char_def
        match_identifier_name_def re_match_identifier_def ident_start_def truthy_str_def)
  have m0: "match_symbol_kind_at ?lx ?l (int 0) = None"
    by (rule symbol_no_match_ident [OF sym]) (simp add: ident_a)
  have m2: "match_symbol_kind_at ?lx ?l (int 2) = None"
    by (rule symbol_no_match_ident [OF sym]) (simp add: ident_b)
  have s1: "startswith ?l ''+'' (int 1)" by (simp add: startswith_def)
  have short: "length (text_repr k') \<le> length ''+''"
    if k': "k' \<in> set sks" and sw: "startswith ?l (text_repr k') (int 1)" for k'
  proof (rule ccontr)
    assume "\<not> length (text_repr k') \<le> length ''+''"
    then have two: "2 \<le> length (text_repr k')" by simp
    from sw have "1 + length (text_repr k') \<le> length ?l \<and>
        take (length (text_repr k')) (drop 1 ?l) = text_repr k'"
      unfolding startswith_nat .
    then have le: "1 + length (text_repr k') \<le> 3"
      and t: "take (length (text_repr k')) ''+b'' = text_repr k'"
      by simp_all
    from two le have "length (text_repr k') = 2" by simp
    with t have "text_repr k' = ''+b''" by simp
    then have "CHR ''b'' \<in> set (text_repr k')" by simp
    with sym k' ident_b show False by blast
  qed
  have m1: "match_symbol_kind_at ?lx ?l (int 1) = Some plus_kind"
    using short by (intro match_symbol_at [OF plus s1]) blast
  have "tokenize_loop ?lx ?l 0 0 [] = tokenize_loop ?lx ?l 0 (0 + 1) []"
    by (rule tokenize_loop_extend [OF _ m0]) (simp_all add: ident_char_not_space ident_a)
  also have "\<dots> = tokenize_loop ?lx ?l 0 1 []" by simp
  also have "\<dots> = tokenize_loop ?lx ?l (1 + length (text_repr plus_kind)) (1 + length (text_repr plus_kind))
                      ([?a] @ [Token_init plus_kind None])"
    by (rule tokenize_loop_symbol [OF _ m1 ca]) simp
  also have "\<dots> = tokenize_loop ?lx ?l 2 2 [?a, Token_init plus_kind None]"
    by (simp add: tp numeral_2_eq_2)
  also have "\<dots> = tokenize_loop ?lx ?l 2 (2 + 1) [?a, Token_init plus_kind None]"
    by (rule tokenize_loop_extend [OF _ m2]) (simp_all add: ident_char_not_space ident_b)
  also have "\<dots> = Some (Inr (2, 2 + 1, [?a, Token_init plus_kind None]))"
    by (rule tokenize_loop_done) simp
  finally have "tokenize_loop ?lx ?l 0 0 [] = Some (Inr (2, 3, [?a, Token_init plus_kind None]))"
    by simp
  then show ?thesis by (simp add: tokenize_line_def cb)
qed

lemma add_chunk_unrecognized:
  assumes "chunk \<noteq> []" and "match_keyword_kind lx chunk = None"
    and "\<not> isdigit chunk" and "\<not> re_match_identifier chunk"
  shows "add_chunk lx chunk toks =
         Inl (CompilerError_new (''unrecognized token at '' @ quote @ chunk @ quote) None None)"
  using assms
  by (simp add: add_chunk_def match_number_string_def match_identifier_name_def truthy_str_def)

lemma tokenize_line_123abc:
  assumes "standard_kinds sks kks"
  shows "tokenize_line (Lexer_init sks kks) ''123abc'' =
         Some (Inl (CompilerError_new (''unrecognized token at '' @ quote @ ''123abc'' @ quote)
                      None None))"
proof -
  from assms have sym: "\<forall>k\<in>set sks. text_repr k \<noteq> [] \<and> (\<forall>c\<in>set (text_repr k). \<not> ident_char c)"
    and kw: "\<forall>k\<in>set kks. identifier_shaped (text_repr k)"
    by (simp_all add: standard_kinds_def)
  have ch: "\<forall>c\<in>set ''123abc''. ident_char c"
    by (simp add: ident_char_def ident_start_def decimal_digit_def)
  have ns: "\<not> identifier_shaped ''123abc''"
    by (simp add: identifier_shaped_def ident_start_def)
  have nk: "match_keyword_kind (Lexer_init sks kks) ''123abc'' = None"
    using kw ns by (auto simp add: match_keyword_kind_find find_None_iff)
  have nd: "\<not> isdigit ''123abc''" by (simp add: isdigit_def isdigit_char_def)
  have ni: "\<not> re_match_identifier ''123abc''"
    by (simp add: re_match_identifier_def ident_start_def)
  from tokenize_line_word [OF sym ch] add_chunk_unrecognized [OF _ nk nd ni]
  show ?thesis by simp
qed

lemma standard_kinds_spec: "standard_kinds spec_symbol_kinds spec_keyword_kinds"
  by (simp add: standard_kinds_def spec_symbol_kinds_def spec_keyword_kinds_def
      open_brack_def close_brack_def open_paren_def close_paren_def semicolon_def
      return_kw_def if_kw_def else_kw_def while_kw_def
      ident_char_def ident_start_def decimal_digit_def identifier_shaped_def)

lemma tokenize_lines_error:
  "tokenize_lines lx ls acc = Some (Inl e) \<Longrightarrow> file_name e \<noteq> None \<and> line_num e \<noteq> None"
proof (induction ls arbitrary: acc)
  case Nil
  then show ?case by simp
next
  case (Cons l ls)
  then show ?case
    by (cases "tokenize_line lx (fst l)") (auto split: sum.splits)
qed

lemma tokenize_lines_stamped:
  "tokenize_lines lx ls acc = Some (Inr toks) \<Longrightarrow> \<forall>t\<in>set acc. stamped t \<Longrightarrow>
   \<forall>t\<in>set toks. stamped t"
proof (induction ls arbitrary: acc)
  case Nil
  then show ?case by simp
next
  case (Cons l ls)
  show ?case
  proof (cases "tokenize_line lx (fst l)")
    case None
    with Cons.prems(1) show ?thesis by simp
  next
    case (Some r)
    show ?thesis
    proof (cases r)
      case (Inl e)
      with Some Cons.prems(1) show ?thesis by simp
    next
      case (Inr ts)
      let ?acc = "acc @ map (\<lambda>token. token\<lparr>Token.file_name := Some (fst (snd l)),
                                 Token.line_num := Some (snd (snd l))\<rparr>) ts"
      from Some Inr Cons.prems(1) have "tokenize_lines lx ls ?acc = Some (Inr toks)" by simp
      moreover have "\<forall>t\<in>set ?acc. stamped t"
        using Cons.prems(2) by (auto simp add: stamped_def)
      ultimately show ?thesis by (rule Cons.IH)
    qed
  qed
qed

lemma tokenize_a_plus_b_spec:
  "tokenize (Lexer_init spec_symbol_kinds spec_keyword_kinds) [(''a+b'', ''main.c'', 1)] =
   Some (Inr [\<lparr>kind = Identifier, content = Some ''a'', file_name = Some ''main.c'', line_num = Some 1\<rparr>,
              \<lparr>kind = Symbol ''+'', content = None, file_name = Some ''main.c'', line_num = Some 1\<rparr>,
              \<lparr>kind = Identifier, content = Some ''b'', file_name = Some ''main.c'', line_num = Some 1\<rparr>])"
  by code_simp

lemma tokenize_unrecognized_spec:
  "tokenize (Lexer_init spec_symbol_kinds spec_keyword_kinds)
     [(''while (a) { return b; }'', ''main.c'', 1), (''x 123abc'', ''main.c'', 2)] =
   Some (Inl \<lparr>descrip = ''unrecognized token at '' @ quote @ ''123abc'' @ quote,
              file_name = Some ''main.c'', line_num = Some 2\<rparr>)"
  by code_simp

subsection \<open>Claims about the lexer\<close>

text \<open>
  C4. For every list of symbol kinds, every keyword list, every line and every start
  position, \<open>match_symbol_kind_at\<close> returns a registered kind whose spelling occurs at
  the position and is at least as long as the spelling of every registered kind that
  occurs there, and returns \<open>None\<close> exactly when no registered spelling occurs there.
  Whenever a kind spelled \<open><<=\<close> is registered (with \<open><\<close> and \<open><<\<close> or without them),
  tokenizing the line \<open><<=\<close> returns exactly one token, whose kind is the first
  registered kind with that spelling.
\<close>

theorem longest_symbol_match:
  "(match_symbol_kind_at (Lexer_init sks kks) line start = Some k \<longrightarrow>
      k \<in> set sks \<and> startswith line (text_repr k) start \<and>
      (\<forall>k'\<in>set sks. startswith line (text_repr k') start \<longrightarrow>
         length (text_repr k') \<le> length (text_repr k)))
   \<and> (match_symbol_kind_at (Lexer_init sks kks) line start = None \<longleftrightarrow>
        (\<forall>k'\<in>set sks. \<not> startswith line (text_repr k') start))
   \<and> (find (\<lambda>k. text_repr k = ''<<='') sks = Some k3 \<longrightarrow>
        tokenize_line (Lexer_init sks kks) ''<<='' = Some (Inr [Token_init k3 None]))"
proof (intro conjI impI)
  assume "match_symbol_kind_at (Lexer_init sks kks) line start = Some k"
  from match_symbol_Some [OF this]
  show "k \<in> set sks" and "startswith line (text_repr k) start"
    and "\<forall>k'\<in>set sks. startswith line (text_repr k') start \<longrightarrow>
         length (text_repr k') \<le> length (text_repr k)"
    by blast+
next
  show "match_symbol_kind_at (Lexer_init sks kks) line start = None \<longleftrightarrow>
        (\<forall>k'\<in>set sks. \<not> startswith line (text_repr k') start)"
    by (rule match_symbol_None)
next
  assume "find (\<lambda>k. text_repr k = ''<<='') sks = Some k3"
  then show "tokenize_line (Lexer_init sks kks) ''<<='' = Some (Inr [Token_init k3 None])"
    by (rule tokenize_line_exact_symbol) simp
qed

theorem longest_symbol_match_witness:
  "match_symbol_kind_at
     (Lexer_init [Symbol ''<'', Symbol ''<<'', Symbol ''<<='', Symbol ''+''] [Keyword ''int''])
     ''a<<=b'' 1 = Some (Symbol ''<<='')
   \<and> length (text_repr (Symbol ''<<'')) \<le> length (text_repr (Symbol ''<<=''))
   \<and> match_symbol_kind_at
     (Lexer_init [Symbol ''<'', Symbol ''<<'', Symbol ''<<='', Symbol ''+''] [Keyword ''int''])
     ''a<<=b'' 0 = None
   \<and> tokenize_line
     (Lexer_init [Symbol ''<'', Symbol ''<<'', Symbol ''<<='', Symbol ''+''] [Keyword ''int''])
     ''<<='' = Some (Inr [Token_init (Symbol ''<<='') None])"
proof -
  let ?sks = "[Symbol ''<'', Symbol ''<<'', Symbol ''<<='', Symbol ''+'']"
  have a: "match_symbol_kind_at (Lexer_init ?sks [Keyword ''int'']) ''a<<=b'' 1 =
             Some (Symbol ''<<='')"
    by (simp add: match_symbol_kind_at_def Lexer_init_def startswith_def)
  have b: "\<forall>k'\<in>set ?sks. \<not> startswith ''a<<=b'' (text_repr k') 0"
    by (simp add: startswith_def)
  have c: "find (\<lambda>k. text_repr k = ''<<='') ?sks = Some (Symbol ''<<='')"
    by simp
  have d: "Symbol ''<<'' \<in> set ?sks" "startswith ''a<<=b'' (text_repr (Symbol ''<<'')) 1"
    by (simp_all add: startswith_def)
  note th1 = longest_symbol_match [of ?sks "[Keyword ''int'']" "''a<<=b''" 1 "Symbol ''<<=''"
      "Symbol ''<<=''"]
  note th0 = longest_symbol_match [of ?sks "[Keyword ''int'']" "''a<<=b''" 0 "Symbol ''<<=''"
      "Symbol ''<<=''"]
  from th1 a d have l: "length (text_repr (Symbol ''<<'')) \<le> length (text_repr (Symbol ''<<=''))"
    by blast
  from th0 b have n: "match_symbol_kind_at (Lexer_init ?sks [Keyword ''int'']) ''a<<=b'' 0 = None"
    by blast
  from th1 c have t: "tokenize_line (Lexer_init ?sks [Keyword ''int'']) ''<<='' =
      Some (Inr [Token_init (Symbol ''<<='') None])"
    by blast
  from a l n t show ?thesis by blast
qed

text \<open>
  C5. With kind tables like the standard ones (\<open>standard_kinds\<close>), a registered symbol
  kind spelled \<open>+\<close>, and no keyword spelled \<open>a\<close> or \<open>b\<close>, tokenizing the line \<open>a+b\<close>
  returns exactly three tokens: the identifier \<open>a\<close>, the symbol \<open>+\<close> and the
  identifier \<open>b\<close>.
\<close>

theorem tokenize_a_plus_b:
  assumes "standard_kinds sks kks"
    and "plus_kind \<in> set sks" and "text_repr plus_kind = ''+''"
    and "\<forall>k\<in>set kks. text_repr k \<noteq> ''a'' \<and> text_repr k \<noteq> ''b''"
  shows "tokenize_line (Lexer_init sks kks) ''a+b'' =
         Some (Inr [Token_init Identifier (Some ''a''), Token_init plus_kind None,
                    Token_init Identifier (Some ''b'')])"
proof -
  from assms(1) have sym: "\<forall>k\<in>set sks. text_repr k \<noteq> [] \<and> (\<forall>c\<in>set (text_repr k). \<not> ident_char c)"
    and ds: "distinct (map text_repr sks)"
    by (simp_all add: standard_kinds_def)
  from find_distinct [OF ds assms(2)] assms(3)
  have "find (\<lambda>k. text_repr k = ''+'') sks = Some plus_kind" by simp
  from tokenize_line_a_plus_b [OF sym this assms(4)] show ?thesis .
qed

theorem tokenize_a_plus_b_witness:
  "standard_kinds spec_symbol_kinds spec_keyword_kinds
   \<and> tokenize_line (Lexer_init spec_symbol_kinds spec_keyword_kinds) ''a+b'' =
         Some (Inr [Token_init Identifier (Some ''a''), Token_init (Symbol ''+'') None,
                    Token_init Identifier (Some ''b'')])"
proof -
  have m: "Symbol ''+'' \<in> set spec_symbol_kinds" by (simp add: spec_symbol_kinds_def)
  have t: "text_repr (Symbol ''+'') = ''+''" by simp
  have k: "\<forall>k\<in>set spec_keyword_kinds. text_repr k \<noteq> ''a'' \<and> text_repr k \<noteq> ''b''"
    by (simp add: spec_keyword_kinds_def return_kw_def if_kw_def else_kw_def while_kw_def)
  from tokenize_a_plus_b [OF standard_kinds_spec m t k] standard_kinds_spec
  show ?thesis by simp
qed

text \<open>
  The error path of \<open>add_chunk\<close>: a non-empty chunk that matches no keyword, that the
  number test rejects and that the identifier pattern does not match raises the error with
  description \<open>unrecognized token at '<chunk>'\<close> and no file name or line number. With
  kind tables like the standard ones the line \<open>123abc\<close> is such a chunk, and \<open>tokenize\<close>
  raises the same error with the file name and line number of the line.
\<close>

lemma unrecognized_chunk_raises:
  "(chunk \<noteq> [] \<and> match_keyword_kind lx chunk = None \<and> \<not> isdigit chunk \<and>
      \<not> re_match_identifier chunk \<longrightarrow>
      add_chunk lx chunk toks =
        Inl (CompilerError_new (''unrecognized token at '' @ quote @ chunk @ quote) None None))
   \<and> (standard_kinds sks kks \<longrightarrow>
        tokenize_line (Lexer_init sks kks) ''123abc'' =
          Some (Inl (CompilerError_new (''unrecognized token at '' @ quote @ ''123abc'' @ quote)
                       None None))
      \<and> tokenize (Lexer_init sks kks) [(''123abc'', f, n)] =
          Some (Inl (CompilerError_new (''unrecognized token at '' @ quote @ ''123abc'' @ quote)
                       (Some f) (Some n))))"
proof (intro conjI impI)
  assume "chunk \<noteq> [] \<and> match_keyword_kind lx chunk = None \<and> \<not> isdigit chunk \<and>
      \<not> re_match_identifier chunk"
  then show "add_chunk lx chunk toks =
        Inl (CompilerError_new (''unrecognized token at '' @ quote @ chunk @ quote) None None)"
    by (intro add_chunk_unrecognized) simp_all
next
  assume "standard_kinds sks kks"
  then show "tokenize_line (Lexer_init sks kks) ''123abc'' =
          Some (Inl (CompilerError_new (''unrecognized token at '' @ quote @ ''123abc'' @ quote)
                       None None))"
    by (rule tokenize_line_123abc)
next
  assume "standard_kinds sks kks"
  from tokenize_line_123abc [OF this]
  show "tokenize (Lexer_init sks kks) [(''123abc'', f, n)] =
          Some (Inl (CompilerError_new (''unrecognized token at '' @ quote @ ''123abc'' @ quote)
                       (Some f) (Some n)))"
    by (simp add: tokenize_def CompilerError_new_def)
qed

text \<open>
  C6. The claim is that a chunk which is neither a registered keyword, nor all decimal
  digits, nor identifier-shaped raises the unrecognized-token error. The number test of
  \<open>match_number_string\<close> is \<open>str.isdigit\<close>, which also accepts digits that are not
  decimal: the one-character line U+00B2 (superscript two) is no keyword, is not made of
  decimal digits and is not identifier-shaped, and the lexer returns a number token with
  that content for it instead of raising.
\<close>

theorem superscript_digit_is_number:
  "[CHR 0xB2] \<noteq> []
   \<and> match_keyword_kind (Lexer_init spec_symbol_kinds spec_keyword_kinds) [CHR 0xB2] = None
   \<and> \<not> list_all decimal_digit [CHR 0xB2]
   \<and> \<not> identifier_shaped [CHR 0xB2]
   \<and> add_chunk (Lexer_init spec_symbol_kinds spec_keyword_kinds) [CHR 0xB2] [] =
       Inr [Token_init Number (Some [CHR 0xB2])]
   \<and> tokenize_line (Lexer_init spec_symbol_kinds spec_keyword_kinds) [CHR 0xB2] =
       Some (Inr [Token_init Number (Some [CHR 0xB2])])
   \<and> tokenize (Lexer_init spec_symbol_kinds spec_keyword_kinds) [([CHR 0xB2], ''main.c'', 1)] =
       Some (Inr [\<lparr>kind = Number, content = Some [CHR 0xB2],
                   file_name = Some ''main.c'', line_num = Some 1\<rparr>])"
  by code_simp

text \<open>
  C8. With kind tables like the standard ones, tokenizing the canonical spelling of any
  registered symbol or keyword kind returns exactly one token, of that kind and without
  content, and that token renders as the same spelling.
\<close>

theorem fixed_spelling_round_trip:
  assumes "standard_kinds sks kks" and "k \<in> set sks \<union> set kks"
  shows "tokenize_line (Lexer_init sks kks) (text_repr k) = Some (Inr [Token_init k None])
       \<and> Token_str (Token_init k None) = text_repr k"
proof -
  from assms(1) have sym: "\<forall>k\<in>set sks. text_repr k \<noteq> [] \<and> (\<forall>c\<in>set (text_repr k). \<not> ident_char c)"
    and kw: "\<forall>k\<in>set kks. identifier_shaped (text_repr k)"
    and ds: "distinct (map text_repr sks)" and dk: "distinct (map text_repr kks)"
    by (simp_all add: standard_kinds_def)
  have "tokenize_line (Lexer_init sks kks) (text_repr k) = Some (Inr [Token_init k None])"
  proof (cases "k \<in> set sks")
    case True
    from find_distinct [OF ds True] sym True show ?thesis
      by (intro tokenize_line_exact_symbol) auto
  next
    case False
    with assms(2) have k: "k \<in> set kks" by simp
    with kw have sh: "identifier_shaped (text_repr k)" by simp
    from identifier_shaped_chars [OF sh]
    have ne: "text_repr k \<noteq> []" and ch: "\<forall>c\<in>set (text_repr k). ident_char c" by simp_all
    from tokenize_line_word [OF sym ch]
    have "tokenize_line (Lexer_init sks kks) (text_repr k) =
          Some (add_chunk (Lexer_init sks kks) (text_repr k) [])" .
    also have "add_chunk (Lexer_init sks kks) (text_repr k) [] = Inr ([] @ [Token_init k None])"
      by (rule add_chunk_keyword [OF find_distinct [OF dk k] ne])
    finally show ?thesis by simp
  qed
  then show ?thesis by (simp add: Token_str_def Token_init_def)
qed

theorem fixed_spelling_round_trip_witness:
  "standard_kinds spec_symbol_kinds spec_keyword_kinds
   \<and> tokenize_line (Lexer_init spec_symbol_kinds spec_keyword_kinds) ''<<='' =
        Some (Inr [Token_init (Symbol ''<<='') None])
   \<and> tokenize_line (Lexer_init spec_symbol_kinds spec_keyword_kinds) ''while'' =
        Some (Inr [Token_init while_kw None])"
proof -
  have a: "Symbol ''<<='' \<in> set spec_symbol_kinds \<union> set spec_keyword_kinds"
    by (simp add: spec_symbol_kinds_def)
  have b: "while_kw \<in> set spec_symbol_kinds \<union> set spec_keyword_kinds"
    by (simp add: spec_keyword_kinds_def)
  from fixed_spelling_round_trip [OF standard_kinds_spec a]
    fixed_spelling_round_trip [OF standard_kinds_spec b] standard_kinds_spec
  show ?thesis by (simp add: while_kw_def)
qed

text \<open>
  C9. An error raised by \<open>tokenize\<close> has a file name and a line number. Every token
  returned by \<open>tokenize\<close> has both, so a \<open>CompilerError\<close> made by \<open>token_error\<close> from
  such a token and a \<open>ParserError\<close> constructed over such a token list have both. In
  general, over tokens that each have both or neither, \<open>token_error\<close> and the
  \<open>ParserError\<close> constructor give an error with both or neither: a file name without a
  line number does not arise.
\<close>

theorem file_and_line_together:
  "(tokenize lx code_lines = Some (Inl e) \<longrightarrow> file_name e \<noteq> None \<and> line_num e \<noteq> None)
   \<and> (tokenize lx code_lines = Some (Inr toks) \<longrightarrow>
        (\<forall>t\<in>set toks. \<forall>ce. token_error fmt d t = Inr ce \<longrightarrow>
           file_name ce \<noteq> None \<and> line_num ce \<noteq> None)
      \<and> (\<forall>pe. ParserError_init message index toks message_type = Inr pe \<longrightarrow>
           file_name pe \<noteq> None \<and> line_num pe \<noteq> None))
   \<and> ((\<forall>t\<in>set toks'. (Token.file_name t = None) = (Token.line_num t = None)) \<longrightarrow>
        (\<forall>t\<in>set toks'. \<forall>ce. token_error fmt d t = Inr ce \<longrightarrow> both_or_neither ce)
      \<and> (\<forall>pe. ParserError_init message index toks' message_type = Inr pe \<longrightarrow>
           both_or_neither pe))"
proof (intro conjI impI ballI allI)
  assume "tokenize lx code_lines = Some (Inl e)"
  then have "file_name e \<noteq> None \<and> line_num e \<noteq> None"
    unfolding tokenize_def by (rule tokenize_lines_error)
  then show "file_name e \<noteq> None" and "line_num e \<noteq> None" by simp_all
next
  fix t ce
  assume tk: "tokenize lx code_lines = Some (Inr toks)" and t: "t \<in> set toks"
    and ce: "token_error fmt d t = Inr ce"
  from tk have "\<forall>t\<in>set toks. stamped t"
    unfolding tokenize_def by (rule tokenize_lines_stamped) simp
  with t have "stamped t" by simp
  with token_error_fields [OF ce]
  show "file_name ce \<noteq> None" and "line_num ce \<noteq> None" by (simp_all add: stamped_def)
next
  fix pe
  assume tk: "tokenize lx code_lines = Some (Inr toks)"
    and pe: "ParserError_init message index toks message_type = Inr pe"
  from tk have st: "\<forall>t\<in>set toks. stamped t"
    unfolding tokenize_def by (rule tokenize_lines_stamped) simp
  from ParserError_init_from_token [OF pe] st
  show "file_name pe \<noteq> None" and "line_num pe \<noteq> None" by (auto simp add: stamped_def)
next
  fix t ce
  assume inv: "\<forall>t\<in>set toks'. (Token.file_name t = None) = (Token.line_num t = None)"
    and t: "t \<in> set toks'" and ce: "token_error fmt d t = Inr ce"
  with token_error_fields [OF ce] show "both_or_neither ce"
    by (simp add: both_or_neither_def)
next
  fix pe
  assume inv: "\<forall>t\<in>set toks'. (Token.file_name t = None) = (Token.line_num t = None)"
    and pe: "ParserError_init message index toks' message_type = Inr pe"
  from ParserError_init_from_token [OF pe] inv show "both_or_neither pe"
    by (auto simp add: both_or_neither_def)
qed

theorem file_and_line_together_witness:
  "tokenize (Lexer_init spec_symbol_kinds spec_keyword_kinds)
     [(''while (a) { return b; }'', ''main.c'', 1), (''x 123abc'', ''main.c'', 2)] =
     Some (Inl \<lparr>descrip = ''unrecognized token at '' @ quote @ ''123abc'' @ quote,
                file_name = Some ''main.c'', line_num = Some 2\<rparr>)
   \<and> ParserError_init ''expected semicolon'' 3
       [\<lparr>kind = Identifier, content = Some ''a'', file_name = Some ''main.c'', line_num = Some 1\<rparr>,
        \<lparr>kind = Symbol ''+'', content = None, file_name = Some ''main.c'', line_num = Some 1\<rparr>,
        \<lparr>kind = Identifier, content = Some ''b'', file_name = Some ''main.c'', line_num = Some 1\<rparr>]
       AT =
     Inr \<lparr>descrip = ''expected semicolon after '' @ quote @ ''b'' @ quote,
          file_name = Some ''main.c'', line_num = Some 1, amount_parsed = 3\<rparr>
   \<and> both_or_neither
       \<lparr>descrip = ''expected semicolon after '' @ quote @ ''b'' @ quote,
        file_name = Some ''main.c'', line_num = Some 1, amount_parsed = 3\<rparr>
   \<and> token_error (\<lambda>d s. Inr (d @ s)) ''unexpected ''
       \<lparr>kind = Symbol ''+'', content = None, file_name = Some ''main.c'', line_num = Some 1\<rparr> =
     Inr \<lparr>descrip = ''unexpected +'', file_name = Some ''main.c'', line_num = Some 1\<rparr>
   \<and> both_or_neither
       \<lparr>descrip = ''unexpected +'', file_name = Some ''main.c'', line_num = Some 1\<rparr>"
proof -
  let ?lx = "Lexer_init spec_symbol_kinds spec_keyword_kinds"
  let ?plus = "\<lparr>kind = Symbol ''+'', content = None, file_name = Some ''main.c'',
                 line_num = Some 1\<rparr>"
  let ?toks = "[\<lparr>kind = Identifier, content = Some ''a'', file_name = Some ''main.c'',
                  line_num = Some 1\<rparr>, ?plus,
                \<lparr>kind = Identifier, content = Some ''b'', file_name = Some ''main.c'',
                  line_num = Some 1\<rparr>]"
  let ?pe = "\<lparr>descrip = ''expected semicolon after '' @ quote @ ''b'' @ quote,
              file_name = Some ''main.c'', line_num = Some 1, amount_parsed = 3\<rparr>"
  let ?ce = "\<lparr>descrip = ''unexpected +'', file_name = Some ''main.c'', line_num = Some 1\<rparr>"
  let ?fmt = "\<lambda>d s. Inr (d @ s) :: pyexn + string"
  have p: "ParserError_init ''expected semicolon'' 3 ?toks AT = Inr ?pe"
    by (simp add: ParserError_init_def getitem_def AT_def GOT_def AFTER_def CompilerError_init_def
        Let_def Token_str_def)
  have c: "token_error ?fmt ''unexpected '' ?plus = Inr ?ce"
    by (simp add: token_error_def Token_str_def CompilerError_new_def)
  have m: "?plus \<in> set ?toks" by simp
  have inv: "\<forall>t\<in>set ?toks. (Token.file_name t = None) = (Token.line_num t = None)" by simp
  note th = file_and_line_together [where lx = ?lx and toks = ?toks and toks' = ?toks
      and fmt = ?fmt and d = "''unexpected ''" and message = "''expected semicolon''"
      and index = 3 and message_type = AT]
  from th [where code_lines = "[(''a+b'', ''main.c'', 1)]"] tokenize_a_plus_b_spec p c m inv
  have "both_or_neither ?pe" and "both_or_neither ?ce"
    and "file_name ?pe \<noteq> None" and "file_name ?ce \<noteq> None"
    by blast+
  with tokenize_unrecognized_spec p c show ?thesis by blast
qed

section \<open>Statement dispatch\<close>

lemma try_in_order_step:
  "try_in_order lg (alt # alts) final index s =
     try_except (alt index s) (\<lambda>e s1. try_in_order lg alts final index (lg e s1))"
  by (simp add: try_except_def)

lemma demo_all_fail:
  "parse_compound_statement 1 demo_env 3 [] =
     Some (Inl (Parser \<lparr>descrip = ''expected {, got '' @ quote @ '';'' @ quote,
                  file_name = Some ''main.c'', line_num = Some 1, amount_parsed = 3\<rparr>), [])"
  "parse_return demo_env 3
     (log_error demo_env
        \<lparr>descrip = ''expected {, got '' @ quote @ '';'' @ quote,
          file_name = Some ''main.c'', line_num = Some 1, amount_parsed = 3\<rparr> []) =
     Some (Inl (Parser \<lparr>descrip = ''expected return, got '' @ quote @ '';'' @ quote,
                  file_name = Some ''main.c'', line_num = Some 1, amount_parsed = 3\<rparr>),
           [\<lparr>descrip = ''expected {, got '' @ quote @ '';'' @ quote,
             file_name = Some ''main.c'', line_num = Some 1, amount_parsed = 3\<rparr>])"
  "parse_if_statement 1 demo_env 3
     (log_error demo_env
        \<lparr>descrip = ''expected return, got '' @ quote @ '';'' @ quote,
          file_name = Some ''main.c'', line_num = Some 1, amount_parsed = 3\<rparr>
        [\<lparr>descrip = ''expected {, got '' @ quote @ '';'' @ quote,
          file_name = Some ''main.c'', line_num = Some 1, amount_parsed = 3\<rparr>]) =
     Some (Inl (Parser \<lparr>descrip = ''expected if, got '' @ quote @ '';'' @ quote,
                  file_name = Some ''main.c'', line_num = Some 1, amount_parsed = 3\<rparr>),
           [\<lparr>descrip = ''expected {, got '' @ quote @ '';'' @ quote,
             file_name = Some ''main.c'', line_num = Some 1, amount_parsed = 3\<rparr>,
            \<lparr>descrip = ''expected return, got '' @ quote @ '';'' @ quote,
             file_name = Some ''main.c'', line_num = Some 1, amount_parsed = 3\<rparr>])"
  "parse_while_statement 1 demo_env 3
     (log_error demo_env
        \<lparr>descrip = ''expected if, got '' @ quote @ '';'' @ quote,
          file_name = Some ''main.c'', line_num = Some 1, amount_parsed = 3\<rparr>
        [\<lparr>descrip = ''expected {, got '' @ quote @ '';'' @ quote,
          file_name = Some ''main.c'', line_num = Some 1, amount_parsed = 3\<rparr>,
         \<lparr>descrip = ''expected return, got '' @ quote @ '';'' @ quote,
          file_name = Some ''main.c'', line_num = Some 1, amount_parsed = 3\<rparr>]) =
     Some (Inl (Parser \<lparr>descrip = ''expected while, got '' @ quote @ '';'' @ quote,
                  file_name = Some ''main.c'', line_num = Some 1, amount_parsed = 3\<rparr>),
           [\<lparr>descrip = ''expected {, got '' @ quote @ '';'' @ quote,
             file_name = Some ''main.c'', line_num = Some 1, amount_parsed = 3\<rparr>,
            \<lparr>descrip = ''expected return, got '' @ quote @ '';'' @ quote,
             file_name = Some ''main.c'', line_num = Some 1, amount_parsed = 3\<rparr>,
            \<lparr>descrip = ''expected if, got '' @ quote @ '';'' @ quote,
             file_name = Some ''main.c'', line_num = Some 1, amount_parsed = 3\<rparr>])"
  "parse_expr_statement demo_env 3
     (log_error demo_env
        \<lparr>descrip = ''expected while, got '' @ quote @ '';'' @ quote,
          file_name = Some ''main.c'', line_num = Some 1, amount_parsed = 3\<rparr>
        [\<lparr>descrip = ''expected {, got '' @ quote @ '';'' @ quote,
          file_name = Some ''main.c'', line_num = Some 1, amount_parsed = 3\<rparr>,
         \<lparr>descrip = ''expected return, got '' @ quote @ '';'' @ quote,
          file_name = Some ''main.c'', line_num = Some 1, amount_parsed = 3\<rparr>,
         \<lparr>descrip = ''expected if, got '' @ quote @ '';'' @ quote,
          file_name = Some ''main.c'', line_num = Some 1, amount_parsed = 3\<rparr>]) =
     Some (Inl (Parser \<lparr>descrip = ''expected expression'', file_name = None, line_num = None,
                  amount_parsed = 3\<rparr>),
           [\<lparr>descrip = ''expected {, got '' @ quote @ '';'' @ quote,
             file_name = Some ''main.c'', line_num = Some 1, amount_parsed = 3\<rparr>,
            \<lparr>descrip = ''expected return, got '' @ quote @ '';'' @ quote,
             file_name = Some ''main.c'', line_num = Some 1, amount_parsed = 3\<rparr>,
            \<lparr>descrip = ''expected if, got '' @ quote @ '';'' @ quote,
             file_name = Some ''main.c'', line_num = Some 1, amount_parsed = 3\<rparr>,
            \<lparr>descrip = ''expected while, got '' @ quote @ '';'' @ quote,
             file_name = Some ''main.c'', line_num = Some 1, amount_parsed = 3\<rparr>])"
  by code_simp+

lemma demo_compound:
  "parse_compound_statement 5 demo_env 0 [] =
     Some (Inr (Node (Compound [Node (Return (Node (Opaque ''5'') (Some (2, 2)))) (Some (1, 3))])
                  (Some (0, 4)), 5),
           [\<lparr>descrip = ''expected {, got '' @ quote @ ''return'' @ quote,
             file_name = Some ''main.c'', line_num = Some 1, amount_parsed = 1\<rparr>,
            \<lparr>descrip = ''expected {, got '' @ quote @ ''}'' @ quote,
             file_name = Some ''main.c'', line_num = Some 1, amount_parsed = 4\<rparr>,
            \<lparr>descrip = ''expected return, got '' @ quote @ ''}'' @ quote,
             file_name = Some ''main.c'', line_num = Some 1, amount_parsed = 4\<rparr>,
            \<lparr>descrip = ''expected if, got '' @ quote @ ''}'' @ quote,
             file_name = Some ''main.c'', line_num = Some 1, amount_parsed = 4\<rparr>,
            \<lparr>descrip = ''expected while, got '' @ quote @ ''}'' @ quote,
             file_name = Some ''main.c'', line_num = Some 1, amount_parsed = 4\<rparr>,
            \<lparr>descrip = ''expected expression'', file_name = None, line_num = None,
             amount_parsed = 4\<rparr>,
            \<lparr>descrip = ''expected declaration'', file_name = None, line_num = None,
             amount_parsed = 4\<rparr>])"
  by code_simp

text \<open>
  C7. For every starting index (and every depth budget beyond zero, token list, error log
  and pair of expression and declaration parsers), \<open>parse_statement\<close> is the ordered
  dispatch \<open>try_in_order\<close> over the alternatives compound, return, if and while, with the
  expression statement as unguarded final alternative, followed by the range annotation:
  each alternative is tried from the same starting index; a \<open>ParserError\<close> of one of the
  first four is logged and the next alternative is tried; the first success is returned.
  When the first four fail with \<open>ParserError\<close>s and the expression statement raises, its
  exception is the outcome of \<open>parse_statement\<close>, with the log holding the four logged
  errors and not the fifth. When the compound alternative succeeds, its node is returned
  with the range from the starting index to the last consumed token.
\<close>

theorem parse_statement_order:
  "parse_statement (Suc depth) env index s =
     add_range index
       (try_in_order (log_error env)
          [parse_compound_statement depth env, parse_return env,
           parse_if_statement depth env, parse_while_statement depth env]
          (parse_expr_statement env) index s)
   \<and> (parse_compound_statement depth env index s = Some (Inl (Parser e1), s1) \<longrightarrow>
      parse_return env index (log_error env e1 s1) = Some (Inl (Parser e2), s2) \<longrightarrow>
      parse_if_statement depth env index (log_error env e2 s2) = Some (Inl (Parser e3), s3) \<longrightarrow>
      parse_while_statement depth env index (log_error env e3 s3) = Some (Inl (Parser e4), s4) \<longrightarrow>
      parse_expr_statement env index (log_error env e4 s4) = Some (Inl x, s5) \<longrightarrow>
      parse_statement (Suc depth) env index s = Some (Inl x, s5))
   \<and> (parse_compound_statement depth env index s = Some (Inr (nd, next_index), s1) \<longrightarrow>
      parse_statement (Suc depth) env index s =
        Some (Inr (Node (shape nd) (Some (index, next_index - 1)), next_index), s1))"
proof (intro conjI impI)
  show "parse_statement (Suc depth) env index s =
     add_range index
       (try_in_order (log_error env)
          [parse_compound_statement depth env, parse_return env,
           parse_if_statement depth env, parse_while_statement depth env]
          (parse_expr_statement env) index s)"
    by (simp only: parse_statement.simps try_in_order_step try_in_order.simps)
next
  assume "parse_compound_statement depth env index s = Some (Inl (Parser e1), s1)"
    and "parse_return env index (log_error env e1 s1) = Some (Inl (Parser e2), s2)"
    and "parse_if_statement depth env index (log_error env e2 s2) = Some (Inl (Parser e3), s3)"
    and "parse_while_statement depth env index (log_error env e3 s3) = Some (Inl (Parser e4), s4)"
    and "parse_expr_statement env index (log_error env e4 s4) = Some (Inl x, s5)"
  then show "parse_statement (Suc depth) env index s = Some (Inl x, s5)"
    by (simp add: try_except_def add_range_def)
next
  assume "parse_compound_statement depth env index s = Some (Inr (nd, next_index), s1)"
  then show "parse_statement (Suc depth) env index s =
        Some (Inr (Node (shape nd) (Some (index, next_index - 1)), next_index), s1)"
    by (simp add: try_except_def add_range_def)
qed

theorem parse_statement_order_witness:
  "parse_statement (Suc 1) demo_env 3 [] =
     Some (Inl (Parser \<lparr>descrip = ''expected expression'', file_name = None, line_num = None,
                  amount_parsed = 3\<rparr>),
           [\<lparr>descrip = ''expected {, got '' @ quote @ '';'' @ quote,
             file_name = Some ''main.c'', line_num = Some 1, amount_parsed = 3\<rparr>,
            \<lparr>descrip = ''expected return, got '' @ quote @ '';'' @ quote,
             file_name = Some ''main.c'', line_num = Some 1, amount_parsed = 3\<rparr>,
            \<lparr>descrip = ''expected if, got '' @ quote @ '';'' @ quote,
             file_name = Some ''main.c'', line_num = Some 1, amount_parsed = 3\<rparr>,
            \<lparr>descrip = ''expected while, got '' @ quote @ '';'' @ quote,
             file_name = Some ''main.c'', line_num = Some 1, amount_parsed = 3\<rparr>])
   \<and> (\<exists>lg. parse_statement (Suc 5) demo_env 0 [] =
     Some (Inr (Node (Compound [Node (Return (Node (Opaque ''5'') (Some (2, 2)))) (Some (1, 3))])
                  (Some (0, 4)), 5), lg))"
proof -
  note th = parse_statement_order [where env = demo_env]
  have a: "parse_statement (Suc 1) demo_env 3 [] =
     Some (Inl (Parser \<lparr>descrip = ''expected expression'', file_name = None, line_num = None,
                  amount_parsed = 3\<rparr>),
           [\<lparr>descrip = ''expected {, got '' @ quote @ '';'' @ quote,
             file_name = Some ''main.c'', line_num = Some 1, amount_parsed = 3\<rparr>,
            \<lparr>descrip = ''expected return, got '' @ quote @ '';'' @ quote,
             file_name = Some ''main.c'', line_num = Some 1, amount_parsed = 3\<rparr>,
            \<lparr>descrip = ''expected if, got '' @ quote @ '';'' @ quote,
             file_name = Some ''main.c'', line_num = Some 1, amount_parsed = 3\<rparr>,
            \<lparr>descrip = ''expected while, got '' @ quote @ '';'' @ quote,
             file_name = Some ''main.c'', line_num = Some 1, amount_parsed = 3\<rparr>])"
    using th [where depth = 1 and index = 3 and s = "[]"] demo_all_fail by blast
  have b: "parse_statement (Suc 5) demo_env 0 [] =
     Some (Inr (Node (shape (Node (Compound [Node (Return (Node (Opaque ''5'') (Some (2, 2))))
                                               (Some (1, 3))]) (Some (0, 4))))
                  (Some (0, 5 - 1)), 5),
           [\<lparr>descrip = ''expected {, got '' @ quote @ ''return'' @ quote,
             file_name = Some ''main.c'', line_num = Some 1, amount_parsed = 1\<rparr>,
            \<lparr>descrip = ''expected {, got '' @ quote @ ''}'' @ quote,
             file_name = Some ''main.c'', line_num = Some 1, amount_parsed = 4\<rparr>,
            \<lparr>descrip = ''expected return, got '' @ quote @ ''}'' @ quote,
             file_name = Some ''main.c'', line_num = Some 1, amount_parsed = 4\<rparr>,
            \<lparr>descrip = ''expected if, got '' @ quote @ ''}'' @ quote,
             file_name = Some ''main.c'', line_num = Some 1, amount_parsed = 4\<rparr>,
            \<lparr>descrip = ''expected while, got '' @ quote @ ''}'' @ quote,
             file_name = Some ''main.c'', line_num = Some 1, amount_parsed = 4\<rparr>,
            \<lparr>descrip = ''expected expression'', file_name = None, line_num = None,
             amount_parsed = 4\<rparr>,
            \<lparr>descrip = ''expected declaration'', file_name = None, line_num = None,
             amount_parsed = 4\<rparr>])"
    using th [where depth = 5 and index = 0 and s = "[]"] demo_compound by blast
  from a b show ?thesis by simp
qed

end
